theory Spec2Isabelle
  imports Complex_Main "HOL-Library.Sublist" "HOL-Library.Char_ord" "HOL-Library.List_Lexorder"
begin

section \<open>Conventions of the embedding\<close>

text \<open>
  The two scripts of the repository, \<^verbatim>\<open>devops-pr-report.py\<close> and \<^verbatim>\<open>time-report.py\<close>, are
  embedded function by function. The conventions are:
  \<^item> An identifier (a model name, a key id, an e-mail address, initials) is a \<open>string\<close>;
    one \<open>char\<close> stands for one code point below 256, and \<open>py_lower\<close> is \<^verbatim>\<open>str.lower\<close> on
    these code points.
  \<^item> A key label, the free text that \<^verbatim>\<open>extract_user_from_keyname\<close> reads, is the list of
    its code points, each a \<open>nat\<close>, with no bound on them. The case mapping of Unicode is
    not fixed by the program: \<^verbatim>\<open>str.lower\<close> is a parameter \<open>lower\<close> of the model of that
    function, and the general statements hold for every function \<open>lower\<close>.
  \<^item> A Python \<^verbatim>\<open>float\<close> that holds an amount of money is a \<open>rat\<close>: the arithmetic of
    the model is exact, the binary rounding of each float operation is left out.
    \<^verbatim>\<open>round(x, 2)\<close> rounds the binary float, and what it returns for an amount at half
    a cent depends on that float; it is a parameter \<open>round2\<close> of the model, and the
    general statements hold for every function \<open>round2\<close>.
  \<^item> An aware UTC \<^verbatim>\<open>datetime\<close> is an \<open>int\<close>: the microseconds since the midnight that
    begins proleptic ordinal day 0, so that \<open>date_of\<close> of it is \<^verbatim>\<open>date.toordinal()\<close>. A
    date key \<^verbatim>\<open>strftime("%Y-%m-%d")\<close> is represented by that ordinal (different days,
    different keys). The limits of \<^verbatim>\<open>datetime\<close> (years 1 to 9999) are left out.
  \<^item> A raised exception is the \<open>Inl\<close> of a sum.
\<close>

datatype py_error = ValueError | ZeroDivisionError

section \<open>Strings\<close>

definition py_lower_char :: "char \<Rightarrow> char" where
  "py_lower_char c =
     (let n = (of_char c :: nat)
      in if (65 \<le> n \<and> n \<le> 90) \<or> (192 \<le> n \<and> n \<le> 222 \<and> n \<noteq> 215)
         then char_of (n + 32) else c)"

definition py_lower :: "string \<Rightarrow> string" where
  "py_lower s = map py_lower_char s"

definition startswith :: "'a list \<Rightarrow> 'a list \<Rightarrow> bool" where
  "startswith s p = (take (length p) s = p)"

text \<open>
  A key label is free text: it is the list of its code points, and \<open>code_points\<close> gives
  that list for a literal.
\<close>

definition code_points :: "string \<Rightarrow> nat list" where
  "code_points s = map of_char s"

text \<open>
  The code points that \<^verbatim>\<open>str.strip\<close> removes at both ends, those of which
  \<^verbatim>\<open>str.isspace\<close> holds.
\<close>

definition py_isspace :: "nat \<Rightarrow> bool" where
  "py_isspace c =
     (c \<in> {9, 10, 11, 12, 13, 28, 29, 30, 31, 32, 133, 160, 5760, 8192, 8193, 8194, 8195,
            8196, 8197, 8198, 8199, 8200, 8201, 8202, 8232, 8233, 8239, 8287, 12288})"

definition py_strip :: "nat list \<Rightarrow> nat list" where
  "py_strip s = rev (dropWhile py_isspace (rev (dropWhile py_isspace s)))"

text \<open>
  \<^verbatim>\<open>str.lower\<close> on a label each of whose code points is below 256 or is one that
  \<^verbatim>\<open>str.lower\<close> leaves as it is (U+03D2, an upper-case letter, is one). It is used for
  concrete labels only, all of them of this kind.
\<close>

definition lower_latin1 :: "nat list \<Rightarrow> nat list" where
  "lower_latin1 s =
     map (\<lambda>n. if (65 \<le> n \<and> n \<le> 90) \<or> (192 \<le> n \<and> n \<le> 222 \<and> n \<noteq> 215)
              then n + 32 else n) s"

text \<open>The character class \<^verbatim>\<open>[a-z]\<close> of the three regular expressions.\<close>

definition is_az :: "nat \<Rightarrow> bool" where
  "is_az c = (97 \<le> c \<and> c \<le> 122)"

section \<open>devops-pr-report.py: extract\_user\_from\_keyname\<close>

text \<open>
  \<^verbatim>\<open>re.match(r"claude_code_key_([a-z]+)_", s)\<close>: the literal prefix (16 characters), a
  greedy non-empty run of \<^verbatim>\<open>[a-z]\<close>, then an underscore. The character after a shorter
  run is a letter, never the underscore, so backtracking finds nothing the maximal run
  does not; the group is the maximal run.
\<close>

definition match_claude_code_key :: "nat list \<Rightarrow> nat list option" where
  "match_claude_code_key s =
     (if startswith s (code_points ''claude_code_key_'') then
        (let rest = drop 16 s; u = takeWhile is_az rest; after = dropWhile is_az rest
         in if u \<noteq> [] \<and> (case after of [] \<Rightarrow> False | c # _ \<Rightarrow> c = of_char CHR ''_'')
            then Some u else None)
      else None)"

text \<open>
  \<^verbatim>\<open>re.match(r"([a-z]{2,6})[-_]", s)\<close>: a run of two to six letters followed by a hyphen
  or an underscore; a run of seven letters or more has a letter after every prefix of it,
  so it does not match.
\<close>

definition match_user_sep :: "nat list \<Rightarrow> nat list option" where
  "match_user_sep s =
     (let u = takeWhile is_az s; after = dropWhile is_az s
      in if 2 \<le> length u \<and> length u \<le> 6 \<and>
            (case after of [] \<Rightarrow> False
             | c # _ \<Rightarrow> c = of_char CHR ''-'' \<or> c = of_char CHR ''_'')
         then Some u else None)"

text \<open>
  \<^verbatim>\<open>re.match(r"^[a-z]{2,6}$", s)\<close>: the whole string is two to six letters; \<^verbatim>\<open>$\<close> also
  matches before one final newline.
\<close>

definition match_short :: "nat list \<Rightarrow> bool" where
  "match_short s =
     (let u = takeWhile is_az s; after = dropWhile is_az s
      in 2 \<le> length u \<and> length u \<le> 6 \<and> (after = [] \<or> after = [of_char (CHR 0x0A)]))"

text \<open>
  \<open>lower\<close> stands for \<^verbatim>\<open>str.lower\<close>.
\<close>

definition extract_user_from_keyname :: "(nat list \<Rightarrow> nat list) \<Rightarrow> nat list \<Rightarrow> nat list" where
  "extract_user_from_keyname lower name =
     (let name_lower = py_strip (lower name)
      in case match_claude_code_key name_lower of
           Some u \<Rightarrow> u
         | None \<Rightarrow>
             (case match_user_sep name_lower of
                Some u \<Rightarrow> u
              | None \<Rightarrow> if match_short name_lower then name_lower else take 10 name_lower))"

section \<open>devops-pr-report.py: pricing and cost\<close>

text \<open>
  A usage result of the metering service. A field is \<open>None\<close> when the key is absent from
  the dictionary, which is when \<^verbatim>\<open>.get\<close> supplies its default.
\<close>

record cache_creation =
  ephemeral_5m_input_tokens :: "int option"
  ephemeral_1h_input_tokens :: "int option"

record usage_result =
  api_key_id :: "string option"
  model :: "string option"
  uncached_input_tokens :: "int option"
  cache_read_input_tokens :: "int option"
  output_tokens :: "int option"
  cache_creation :: "cache_creation option"

text \<open>
  The pricing table, in the insertion order the dictionary is iterated in: prefix, then
  the rates per million tokens for input, cache read, cache write and output.
\<close>

type_synonym pricing = "rat \<times> rat \<times> rat \<times> rat"

definition MODEL_PRICING :: "(string \<times> pricing) list" where
  "MODEL_PRICING =
     [(''claude-opus-4'', (15, 3 / 2, 75 / 4, 75)),
      (''claude-sonnet-4'', (3, 3 / 10, 15 / 4, 15)),
      (''claude-haiku-4'', (4 / 5, 2 / 25, 1, 4)),
      (''_default'', (3, 3 / 10, 15 / 4, 15))]"

definition DEFAULT_PRICING :: pricing where
  "DEFAULT_PRICING = (3, 3 / 10, 15 / 4, 15)"

text \<open>The first entry of the table the loop of \<^verbatim>\<open>_get_pricing\<close> returns at, if any.\<close>

definition matching_entry :: "string \<Rightarrow> (string \<times> pricing) option" where
  "matching_entry model_lower =
     find (\<lambda>(pfx, pricing). pfx \<noteq> ''_default'' \<and> startswith model_lower pfx)
       MODEL_PRICING"

definition get_pricing :: "string \<Rightarrow> pricing" where
  "get_pricing m =
     (case matching_entry (py_lower m) of
        Some (pfx, pricing) \<Rightarrow> pricing
      | None \<Rightarrow> DEFAULT_PRICING)"

definition get0 :: "int option \<Rightarrow> int" where
  "get0 v = (case v of None \<Rightarrow> 0 | Some n \<Rightarrow> n)"

definition cache_write_tokens :: "usage_result \<Rightarrow> int" where
  "cache_write_tokens r =
     (case cache_creation r of
        None \<Rightarrow> 0
      | Some cc \<Rightarrow> get0 (ephemeral_5m_input_tokens cc) + get0 (ephemeral_1h_input_tokens cc))"

definition calc_cost :: "usage_result \<Rightarrow> rat" where
  "calc_cost r =
     (let m = (case model r of None \<Rightarrow> [] | Some s \<Rightarrow> s);
          (inp_price, cache_read_price, cache_write_price, out_price) = get_pricing m;
          uncached_input = get0 (uncached_input_tokens r);
          cache_read = get0 (cache_read_input_tokens r);
          output = get0 (output_tokens r);
          cache_write = cache_write_tokens r
      in of_int uncached_input * inp_price / 1000000
         + of_int cache_read * cache_read_price / 1000000
         + of_int cache_write * cache_write_price / 1000000
         + of_int output * out_price / 1000000)"

section \<open>devops-pr-report.py: the deduplication loop of main\<close>

text \<open>
  A pull request as the hosting service returns it, with the fields the two scripts read.
  \<open>pullRequestId\<close> is read with \<^verbatim>\<open>pr["pullRequestId"]\<close>; the service sends it with every
  record, and the record type has it. \<open>creationDate\<close> and \<open>closedDate\<close> hold what
  \<^verbatim>\<open>_parse_iso\<close> makes of the two timestamp fields: \<open>None\<close> for an absent, empty or
  unparseable field, otherwise the UTC instant.
\<close>

record pull_request =
  pullRequestId :: int
  repository_name :: string
  title :: string
  status :: string
  target :: string
  creationDate :: "int option"
  closedDate :: "int option"

fun dedup_loop :: "int set \<Rightarrow> pull_request list \<Rightarrow> pull_request list \<Rightarrow> pull_request list" where
  "dedup_loop seen unique_prs [] = unique_prs"
| "dedup_loop seen unique_prs (pr # rest) =
     (let pid = pullRequestId pr
      in if pid \<notin> seen then dedup_loop (insert pid seen) (unique_prs @ [pr]) rest
         else dedup_loop seen unique_prs rest)"

definition dedup_prs :: "pull_request list \<Rightarrow> pull_request list" where
  "dedup_prs all_prs = dedup_loop {} [] all_prs"

section \<open>devops-pr-report.py: build\_consumption\_chart\<close>

text \<open>
  \<open>people\<close> is the dictionary from initials to a person, in insertion order; as a
  dictionary it has no key twice. \<^verbatim>\<open>None\<close> and the empty dictionary are both falsy and
  take the same branches everywhere, so both are the empty list. \<open>key_ids\<close> is a set in
  the source; the order it is iterated in does not matter, since every one of its keys is
  given the same initials.
\<close>

record person_info =
  display_name :: string
  key_ids :: "string list"
  email :: "string option"

type_synonym people = "(string \<times> person_info) list"

record usage_bucket =
  starting_at :: "string option"
  results :: "usage_result list"

text \<open>
  An enriched pull request of \<^verbatim>\<open>prs_data\<close>: \<open>created_key\<close> is the date key of its
  \<^verbatim>\<open>created\<close> field, \<open>None\<close> when \<^verbatim>\<open>strptime\<close> raises and the loop continues.
\<close>

record pr_data =
  created_key :: "string option"
  creator_email :: string

definition build_key_to_person :: "people \<Rightarrow> (string \<rightharpoonup> string)" where
  "build_key_to_person people =
     fold (\<lambda>(initials, info) m. fold (\<lambda>kid m'. m'(kid \<mapsto> initials)) (key_ids info) m)
       people Map.empty"

text \<open>The two \<^verbatim>\<open>defaultdict\<close>s of costs: a key never written reads as 0.\<close>

type_synonym daily_cost = "string \<Rightarrow> rat"

definition person_of :: "(string \<rightharpoonup> string) \<Rightarrow> usage_result \<Rightarrow> string" where
  "person_of key_to_person r =
     (let key_id = (case api_key_id r of None \<Rightarrow> [] | Some k \<Rightarrow> k)
      in case key_to_person key_id of None \<Rightarrow> ''_other'' | Some p \<Rightarrow> p)"

definition add_result ::
  "(string \<rightharpoonup> string) \<Rightarrow> string \<Rightarrow> usage_result \<Rightarrow>
   daily_cost \<times> (string \<Rightarrow> daily_cost) \<Rightarrow> daily_cost \<times> (string \<Rightarrow> daily_cost)" where
  "add_result key_to_person date_str r acc =
     (case acc of (all_daily, person_daily) \<Rightarrow>
        (let c = calc_cost r
         in if c \<le> 0 then (all_daily, person_daily)
            else (let person = person_of key_to_person r
                  in (all_daily(date_str := all_daily date_str + c),
                      person_daily(person :=
                        (person_daily person)(date_str := person_daily person date_str + c))))))"

definition add_bucket ::
  "(string \<rightharpoonup> string) \<Rightarrow> usage_bucket \<Rightarrow>
   daily_cost \<times> (string \<Rightarrow> daily_cost) \<Rightarrow> daily_cost \<times> (string \<Rightarrow> daily_cost)" where
  "add_bucket key_to_person bucket acc =
     (let date_str = take 10 (case starting_at bucket of None \<Rightarrow> [] | Some s \<Rightarrow> s)
      in fold (add_result key_to_person date_str) (results bucket) acc)"

definition daily_costs ::
  "(string \<rightharpoonup> string) \<Rightarrow> usage_bucket list \<Rightarrow> daily_cost \<times> (string \<Rightarrow> daily_cost)" where
  "daily_costs key_to_person usage_buckets =
     fold (add_bucket key_to_person) usage_buckets (\<lambda>d. 0, \<lambda>p d. 0)"

definition email_prefix :: "string \<Rightarrow> string" where
  "email_prefix e = (if e = [] then [] else py_lower (takeWhile (\<lambda>c. c \<noteq> CHR ''@'') e))"

definition add_pr ::
  "people \<Rightarrow> pr_data \<Rightarrow> (string \<Rightarrow> int) \<times> (string \<Rightarrow> string \<Rightarrow> int) \<Rightarrow>
   (string \<Rightarrow> int) \<times> (string \<Rightarrow> string \<Rightarrow> int)" where
  "add_pr people pr acc =
     (case acc of (pr_daily_all, pr_daily_person) \<Rightarrow>
        (case created_key pr of
           None \<Rightarrow> (pr_daily_all, pr_daily_person)
         | Some date_key \<Rightarrow>
             (let pfx = email_prefix (creator_email pr);
                  who = (if pfx \<in> set (map fst people) then pfx else ''_other'')
              in (pr_daily_all(date_key := pr_daily_all date_key + 1),
                  pr_daily_person(who :=
                    (pr_daily_person who)(date_key := pr_daily_person who date_key + 1))))))"

definition daily_prs ::
  "people \<Rightarrow> pr_data list \<Rightarrow> (string \<Rightarrow> int) \<times> (string \<Rightarrow> string \<Rightarrow> int)" where
  "daily_prs people prs = fold (add_pr people) prs (\<lambda>d. 0, \<lambda>p d. 0)"

text \<open>
  Rounding of an exact amount to the nearest cent, ties to the even cent. It is the value of
  \<^verbatim>\<open>round(x, 2)\<close> for an amount that is not at half a cent, and it is what \<open>round2\<close> is
  in the concrete runs below, none of which rounds an amount at half a cent.
\<close>

definition py_round2 :: "rat \<Rightarrow> rat" where
  "py_round2 x =
     (let y = x * 100; f = \<lfloor>y\<rfloor>; r = y - of_int f
      in (if r < 1 / 2 then of_int f
          else if 1 / 2 < r then of_int (f + 1)
          else if even f then of_int f else of_int (f + 1)) / 100)"

text \<open>
  \<^verbatim>\<open>persons_data\<close> and \<^verbatim>\<open>persons_pr_data\<close>, one row for each person kept: initials, the
  rounded daily costs and the daily pull request counts along \<open>dates\<close>. \<open>round2\<close> stands
  for \<^verbatim>\<open>round(x, 2)\<close>.
\<close>

definition persons_rows ::
  "(rat \<Rightarrow> rat) \<Rightarrow> people \<Rightarrow> (string \<Rightarrow> daily_cost) \<Rightarrow> (string \<Rightarrow> string \<Rightarrow> int) \<Rightarrow>
   string list \<Rightarrow> (string \<times> rat list \<times> int list) list" where
  "persons_rows round2 people person_daily pr_daily_person dates =
     filter (\<lambda>(initials, cost_arr, pr_arr). 0 < sum_list cost_arr \<or> 0 < sum_list pr_arr)
       (map (\<lambda>(initials, info).
               (initials,
                map (\<lambda>d. round2 (person_daily initials d)) dates,
                map (\<lambda>d. pr_daily_person initials d) dates))
          (sort_key fst people))"

definition py_truediv :: "rat \<Rightarrow> rat \<Rightarrow> py_error + rat" where
  "py_truediv a b = (if b = 0 then Inl ZeroDivisionError else Inr (a / b))"

text \<open>
  One tuple of \<^verbatim>\<open>person_summaries\<close>, without the display name (which no number depends
  on).
\<close>

record person_summary =
  s_initials :: string
  s_cost :: rat
  s_prs :: int
  s_pct :: rat
  s_cost_per_pr :: rat

definition person_cost :: "(string \<times> rat list \<times> int list) list \<Rightarrow> string \<Rightarrow> rat" where
  "person_cost rows ini =
     sum_list (case map_of rows ini of None \<Rightarrow> [] | Some (cost_arr, pr_arr) \<Rightarrow> cost_arr)"

definition person_prs :: "(string \<times> rat list \<times> int list) list \<Rightarrow> string \<Rightarrow> int" where
  "person_prs rows ini =
     sum_list (case map_of rows ini of None \<Rightarrow> [] | Some (cost_arr, pr_arr) \<Rightarrow> pr_arr)"

definition summarise ::
  "(string \<times> rat list \<times> int list) list \<Rightarrow> rat \<Rightarrow> string \<Rightarrow> py_error + person_summary" where
  "summarise rows gtotal ini =
     (let c = person_cost rows ini;
          n = person_prs rows ini
      in case (if 0 < gtotal
               then (case py_truediv c gtotal of Inl e \<Rightarrow> Inl e | Inr q \<Rightarrow> Inr (q * 100))
               else Inr 0) of
           Inl e \<Rightarrow> Inl e
         | Inr p \<Rightarrow>
             (case py_truediv c (of_int (max 1 n)) of
                Inl e \<Rightarrow> Inl e
              | Inr cpp \<Rightarrow>
                  Inr \<lparr>s_initials = ini, s_cost = c, s_prs = n, s_pct = p,
                       s_cost_per_pr = cpp\<rparr>))"

fun summaries_loop ::
  "(string \<times> rat list \<times> int list) list \<Rightarrow> rat \<Rightarrow> string list \<Rightarrow>
   py_error + person_summary list" where
  "summaries_loop rows gtotal [] = Inr []"
| "summaries_loop rows gtotal (ini # rest) =
     (case summarise rows gtotal ini of
        Inl e \<Rightarrow> Inl e
      | Inr s \<Rightarrow>
          (case summaries_loop rows gtotal rest of
             Inl e \<Rightarrow> Inl e
           | Inr ss \<Rightarrow> Inr (s # ss)))"

text \<open>
  What \<^verbatim>\<open>build_consumption_chart\<close> computes before it renders: \<open>None\<close> is the early
  return on an empty usage batch. \<open>dates\<close> is the list of date keys the function builds
  from the clock and \<^verbatim>\<open>days\<close> (its day ordinals are \<open>chart_dates\<close> below), \<open>round2\<close>
  stands for \<^verbatim>\<open>round(x, 2)\<close>.
\<close>

record consumption =
  cost_all :: "rat list"
  pr_counts_all :: "int list"
  grand_total :: rat
  person_summaries :: "person_summary list"
  total_cost_per_pr :: rat

definition build_consumption_chart ::
  "(rat \<Rightarrow> rat) \<Rightarrow> string list \<Rightarrow> pr_data list \<Rightarrow> usage_bucket list \<Rightarrow> people \<Rightarrow>
   py_error + consumption option" where
  "build_consumption_chart round2 dates prs usage_buckets people =
     (if usage_buckets = [] then Inr None
      else
        (let key_to_person = build_key_to_person people;
             (all_daily, person_daily) = daily_costs key_to_person usage_buckets;
             (pr_daily_all, pr_daily_person) = daily_prs people prs;
             pr_counts = map pr_daily_all dates;
             costs = map (\<lambda>d. round2 (all_daily d)) dates;
             rows = persons_rows round2 people person_daily pr_daily_person dates;
             sorted_persons = sort (map fst rows);
             gtotal = sum_list costs
         in case summaries_loop rows gtotal sorted_persons of
              Inl e \<Rightarrow> Inl e
            | Inr ss \<Rightarrow>
                (case py_truediv gtotal (of_int (max 1 (int (length prs)))) of
                   Inl e \<Rightarrow> Inl e
                 | Inr cpp \<Rightarrow>
                     Inr (Some \<lparr>cost_all = costs, pr_counts_all = pr_counts,
                                grand_total = gtotal,
                                person_summaries = sort_key (\<lambda>s. - s_cost s) ss,
                                total_cost_per_pr = cpp\<rparr>))))"

text \<open>The day ordinals of \<open>dates\<close>: the loop from \<^verbatim>\<open>today - days\<close> to \<^verbatim>\<open>today\<close>.\<close>

function dates_loop :: "int \<Rightarrow> int \<Rightarrow> int list" where
  "dates_loop d today = (if d \<le> today then d # dates_loop (d + 1) today else [])"
  by pat_completeness auto
termination
  by (relation "measure (\<lambda>(d, today). nat (today + 1 - d))") auto

declare dates_loop.simps [simp del]

definition chart_dates :: "int \<Rightarrow> int \<Rightarrow> int list" where
  "chart_dates today days = dates_loop (today - days) today"

section \<open>time-report.py: instants and days\<close>

definition usec_per_day :: int where
  "usec_per_day = 86400000000"

text \<open>\<^verbatim>\<open>dt.date()\<close> and the date key of \<^verbatim>\<open>dt.strftime("%Y-%m-%d")\<close>, as an ordinal.\<close>

definition date_of :: "int \<Rightarrow> int" where
  "date_of t = t div usec_per_day"

text \<open>\<^verbatim>\<open>(b - a).days\<close>: a \<^verbatim>\<open>timedelta\<close> is normalised with the floor of the division.\<close>

definition timedelta_days :: "int \<Rightarrow> int \<Rightarrow> int" where
  "timedelta_days b a = (b - a) div usec_per_day"

text \<open>\<^verbatim>\<open>replace(hour=23, minute=59, second=59)\<close> of a midnight adds this much.\<close>

definition end_of_day :: int where
  "end_of_day = 86399000000"

section \<open>time-report.py: get\_devops\_activity\<close>

datatype event =
    pr_created string string int string string string
  | pr_completed string string int string string

fun is_pr_completed :: "event \<Rightarrow> bool" where
  "is_pr_completed (pr_completed project repo pid t tgt) = True"
| "is_pr_completed (pr_created project repo pid t st tgt) = False"

text \<open>\<^verbatim>\<open>daily\<close>: the \<^verbatim>\<open>defaultdict(list)\<close> from date key to the events of that day.\<close>

type_synonym daily = "int \<rightharpoonup> event list"

definition append_event :: "int \<times> event \<Rightarrow> daily \<Rightarrow> daily" where
  "append_event ke daily =
     (case ke of (k, e) \<Rightarrow> daily(k \<mapsto> (case daily k of None \<Rightarrow> [] | Some es \<Rightarrow> es) @ [e]))"

text \<open>
  The events the loop body appends for one pull request, each with its date key, in the
  order it appends them: the two \<^verbatim>\<open>if\<close>s on the creation and on the closing date.
\<close>

definition pr_events :: "string \<Rightarrow> int \<Rightarrow> int \<Rightarrow> pull_request \<Rightarrow> (int \<times> event) list" where
  "pr_events project start finish pr =
     (case creationDate pr of
        None \<Rightarrow> []
      | Some created_dt \<Rightarrow>
          if start \<le> created_dt \<and> created_dt \<le> finish
          then [(date_of created_dt,
                 pr_created project (repository_name pr) (pullRequestId pr) (title pr)
                   (status pr) (target pr))]
          else [])
     @
     (case closedDate pr of
        None \<Rightarrow> []
      | Some closed_dt \<Rightarrow>
          if start \<le> closed_dt \<and> closed_dt \<le> finish
          then (let closed_key = date_of closed_dt
                in if Some closed_key \<noteq> map_option date_of (creationDate pr)
                   then [(closed_key,
                          pr_completed project (repository_name pr) (pullRequestId pr)
                            (title pr) (target pr))]
                   else [])
          else [])"

text \<open>
  \<open>fetch project st\<close> stands for \<^verbatim>\<open>fetch_devops_prs(org, project, st, creator)\<close>, the call
  to the hosting service (the empty list when it fails).
\<close>

definition get_devops_activity ::
  "(string \<Rightarrow> string \<Rightarrow> pull_request list) \<Rightarrow> string list \<Rightarrow> int \<Rightarrow> int \<Rightarrow> daily" where
  "get_devops_activity fetch projects start finish =
     fold (\<lambda>project.
             fold (\<lambda>st. fold (\<lambda>pr. fold append_event (pr_events project start finish pr))
                          (fetch project st))
               [''completed'', ''active'', ''abandoned''])
       projects Map.empty"

section \<open>time-report.py: merge\_daily and the day loop of format\_text\<close>

definition merge_daily :: "daily list \<Rightarrow> daily" where
  "merge_daily sources =
     (\<lambda>k. if list_all (\<lambda>s. s k = None) sources then None
          else Some (concat (map (\<lambda>s. case s k of None \<Rightarrow> [] | Some es \<Rightarrow> es) sources)))"

text \<open>
  One entry for each turn of the \<^verbatim>\<open>while d <= end_d\<close> loop: the day and the items
  \<^verbatim>\<open>daily.get(date_str, [])\<close> the turn prints (a day without items prints its header with
  two dashes).
\<close>

function day_entries :: "daily \<Rightarrow> int \<Rightarrow> int \<Rightarrow> (int \<times> event list) list" where
  "day_entries daily d end_d =
     (if d \<le> end_d
      then (d, case daily d of None \<Rightarrow> [] | Some items \<Rightarrow> items) # day_entries daily (d + 1) end_d
      else [])"
  by pat_completeness auto
termination
  by (relation "measure (\<lambda>(daily, d, end_d). nat (end_d + 1 - d))") auto

declare day_entries.simps [simp del]

definition format_text_days :: "daily \<Rightarrow> int \<Rightarrow> int \<Rightarrow> (int \<times> event list) list" where
  "format_text_days daily start finish = day_entries daily (date_of start) (date_of finish)"

section \<open>time-report.py: main\<close>

record args =
  from_date :: "string option"
  to_date :: "string option"
  date :: "string option"
  days :: int
  no_devops :: bool
  no_claude :: bool
  calendar :: bool
  no_git :: bool
  json :: bool

text \<open>The truth value of an optional string argument, and its text.\<close>

definition arg_text :: "string option \<Rightarrow> string" where
  "arg_text v = (case v of None \<Rightarrow> [] | Some s \<Rightarrow> s)"

definition truthy :: "string option \<Rightarrow> bool" where
  "truthy v = (arg_text v \<noteq> [])"

text \<open>
  \<^verbatim>\<open>datetime.strptime(s, "%Y-%m-%d").replace(tzinfo=timezone.utc)\<close>. \<open>parse\<close> stands for
  the parser of the library: the ordinal of the day, or \<open>None\<close> where it raises
  \<^verbatim>\<open>ValueError\<close>.
\<close>

definition parse_day :: "(string \<Rightarrow> int option) \<Rightarrow> string \<Rightarrow> py_error + int" where
  "parse_day parse s =
     (case parse s of None \<Rightarrow> Inl ValueError | Some ordinal \<Rightarrow> Inr (ordinal * usec_per_day))"

definition determine_range ::
  "(string \<Rightarrow> int option) \<Rightarrow> args \<Rightarrow> int \<Rightarrow> py_error + (int \<times> int)" where
  "determine_range parse a now =
     (if truthy (date a) then
        (case parse_day parse (arg_text (date a)) of
           Inl e \<Rightarrow> Inl e
         | Inr start \<Rightarrow> Inr (start, start + end_of_day))
      else if truthy (from_date a) then
        (case parse_day parse (arg_text (from_date a)) of
           Inl e \<Rightarrow> Inl e
         | Inr start \<Rightarrow>
             if truthy (to_date a) then
               (case parse_day parse (arg_text (to_date a)) of
                  Inl e \<Rightarrow> Inl e
                | Inr t \<Rightarrow> Inr (start, t + end_of_day))
             else Inr (start, now))
      else Inr (now - days a * usec_per_day, now))"

datatype collector = DevOps | Claude | Calendar | Git

definition collectors :: "args \<Rightarrow> collector list" where
  "collectors a =
     (if \<not> no_devops a then [DevOps] else [])
     @ (if \<not> no_claude a then [Claude] else [])
     @ (if calendar a then [Calendar] else [])
     @ (if \<not> no_git a then [Git] else [])"

datatype report = TextReport "(int \<times> event list) list" | JsonReport "int \<times> int" daily

record run =
  range :: "int \<times> int"
  collected :: "collector list"
  printed :: report

text \<open>
  \<open>collect c start finish\<close> stands for the activity collector \<open>c\<close> run on the range (the
  empty dictionary where the source skips it or it fails): the calls that reach the
  outside. \<open>collected\<close> lists the collectors the run has started.
\<close>

definition main ::
  "(string \<Rightarrow> int option) \<Rightarrow> (collector \<Rightarrow> int \<Rightarrow> int \<Rightarrow> daily) \<Rightarrow> args \<Rightarrow> int \<Rightarrow>
   py_error + run" where
  "main parse collect a now =
     (case determine_range parse a now of
        Inl e \<Rightarrow> Inl e
      | Inr (start, finish) \<Rightarrow>
          (let sources = map (\<lambda>c. collect c start finish) (collectors a);
               daily = merge_daily sources
           in Inr \<lparr>range = (start, finish), collected = collectors a,
                   printed = (if json a then JsonReport (start, finish) daily
                              else TextReport (format_text_days daily start finish))\<rparr>))"

section \<open>The date parser on the zero-padded form\<close>

text \<open>
  \<^verbatim>\<open>strptime(s, "%Y-%m-%d")\<close> on the form \<^verbatim>\<open>YYYY-MM-DD\<close> of the usage notes, with the day
  ordinal as \<^verbatim>\<open>date.toordinal\<close> counts it. It is used for concrete runs only; the general
  statements hold for any parser.
\<close>

definition is_digit :: "char \<Rightarrow> bool" where
  "is_digit c = (48 \<le> (of_char c :: nat) \<and> (of_char c :: nat) \<le> 57)"

definition digits_value :: "string \<Rightarrow> int" where
  "digits_value s = foldl (\<lambda>acc c. acc * 10 + (int (of_char c) - 48)) 0 s"

definition is_leap :: "int \<Rightarrow> bool" where
  "is_leap y = (y mod 4 = 0 \<and> (y mod 100 \<noteq> 0 \<or> y mod 400 = 0))"

definition days_in_month :: "int \<Rightarrow> int \<Rightarrow> int" where
  "days_in_month y m =
     (if m = 2 then (if is_leap y then 29 else 28)
      else if m = 4 \<or> m = 6 \<or> m = 9 \<or> m = 11 then 30 else 31)"

definition days_before_year :: "int \<Rightarrow> int" where
  "days_before_year y = (y - 1) * 365 + (y - 1) div 4 - (y - 1) div 100 + (y - 1) div 400"

definition days_before_month :: "int \<Rightarrow> int \<Rightarrow> int" where
  "days_before_month y m = sum_list (map (days_in_month y) [1..m - 1])"

definition ymd2ord :: "int \<Rightarrow> int \<Rightarrow> int \<Rightarrow> int" where
  "ymd2ord y m d = days_before_year y + days_before_month y m + d"

definition strptime_ymd :: "string \<Rightarrow> int option" where
  "strptime_ymd s =
     (if length s = 10 \<and> s ! 4 = CHR ''-'' \<and> s ! 7 = CHR ''-''
         \<and> list_all is_digit (take 4 s) \<and> list_all is_digit (take 2 (drop 5 s))
         \<and> list_all is_digit (drop 8 s)
      then (let y = digits_value (take 4 s); m = digits_value (take 2 (drop 5 s));
                d = digits_value (drop 8 s)
            in if 1 \<le> y \<and> 1 \<le> m \<and> m \<le> 12 \<and> 1 \<le> d \<and> d \<le> days_in_month y m
               then Some (ymd2ord y m d) else None)
      else None)"

section \<open>Invariants and shorthands of the cost accumulation\<close>

text \<open>
  Two invariants of the loop over the usage buckets, stated on its pair of accumulators
  \<^verbatim>\<open>all_daily\<close> and \<^verbatim>\<open>person_daily\<close>: every day's total is the sum of that day's costs
  over the persons of a list; and no entry is negative.
\<close>

definition conserved :: "string list \<Rightarrow> daily_cost \<times> (string \<Rightarrow> daily_cost) \<Rightarrow> bool" where
  "conserved P acc = (\<forall>d. fst acc d = (\<Sum>p\<leftarrow>P. snd acc p d))"

definition nonneg_acc :: "daily_cost \<times> (string \<Rightarrow> daily_cost) \<Rightarrow> bool" where
  "nonneg_acc acc = ((\<forall>d. 0 \<le> fst acc d) \<and> (\<forall>p d. 0 \<le> snd acc p d))"

text \<open>
  Shorthands for the values \<^verbatim>\<open>build_consumption_chart\<close> works with: the tuple appended for
  one person, the rows of \<^verbatim>\<open>persons_data\<close>, and the grand total.
\<close>

abbreviation summary_row ::
  "(string \<times> rat list \<times> int list) list \<Rightarrow> rat \<Rightarrow> string \<Rightarrow> person_summary" where
  "summary_row rows g ini \<equiv>
     \<lparr>s_initials = ini, s_cost = person_cost rows ini, s_prs = person_prs rows ini,
      s_pct = (if 0 < g then person_cost rows ini / g * 100 else 0),
      s_cost_per_pr = person_cost rows ini / of_int (max 1 (person_prs rows ini))\<rparr>"

abbreviation chart_rows ::
  "(rat \<Rightarrow> rat) \<Rightarrow> people \<Rightarrow> usage_bucket list \<Rightarrow> pr_data list \<Rightarrow> string list \<Rightarrow>
   (string \<times> rat list \<times> int list) list" where
  "chart_rows round2 people usage_buckets prs dates \<equiv>
     persons_rows round2 people
       (snd (daily_costs (build_key_to_person people) usage_buckets))
       (snd (daily_prs people prs)) dates"

abbreviation chart_total ::
  "(rat \<Rightarrow> rat) \<Rightarrow> people \<Rightarrow> usage_bucket list \<Rightarrow> string list \<Rightarrow> rat" where
  "chart_total round2 people usage_buckets dates \<equiv>
     (\<Sum>d\<leftarrow>dates. round2 (fst (daily_costs (build_key_to_person people) usage_buckets) d))"

section \<open>Lemmas on strings\<close>

lemma is_az_not_space: "is_az c \<Longrightarrow> \<not> py_isspace c"
  by (auto simp: is_az_def py_isspace_def)

lemma no_leading_space_prefix:
  assumes "dropWhile P t = t" and "prefix r t"
  shows "dropWhile P r = r"
proof (cases r)
  case Nil then show ?thesis by simp
next
  case (Cons a r')
  with assms(2) obtain t' where t: "t = a # t'" by (auto simp: prefix_def)
  with assms(1) have "\<not> P a" by (metis dropWhile_eq_Cons_conv)
  with Cons show ?thesis by simp
qed

lemma strip_no_leading_space: "dropWhile py_isspace (py_strip s) = py_strip s"
proof -
  let ?t = "dropWhile py_isspace s"
  have a: "dropWhile py_isspace ?t = ?t" by (simp add: dropWhile_idem)
  have "?t = rev (dropWhile py_isspace (rev ?t)) @ rev (takeWhile py_isspace (rev ?t))"
    by (metis rev_append rev_rev_ident takeWhile_dropWhile_id)
  then have "prefix (py_strip s) ?t" unfolding py_strip_def prefix_def by blast
  with a show ?thesis by (rule no_leading_space_prefix)
qed

section \<open>The key label cascade\<close>

section \<open>The key label cascade\<close>

lemmas cascade_defs = extract_user_from_keyname_def match_claude_code_key_def match_user_sep_def
  match_short_def py_strip_def lower_latin1_def code_points_def startswith_def is_az_def
  py_isspace_def Let_def

lemma extract_cases:
  "extract_user_from_keyname lower name = u \<Longrightarrow>
   (\<exists>n. u = takeWhile is_az (drop n (py_strip (lower name))) \<and> u \<noteq> []) \<or>
   prefix u (py_strip (lower name))"
  unfolding extract_user_from_keyname_def Let_def match_claude_code_key_def match_user_sep_def
  by (auto split: option.splits if_splits simp: take_is_prefix takeWhile_is_prefix)

lemma takeWhile_drop_sublist: "sublist (takeWhile P (drop n s)) s"
proof -
  have "s = take n s @ takeWhile P (drop n s) @ dropWhile P (drop n s)" by simp
  then show ?thesis unfolding sublist_def by blast
qed

lemma extract_sublist:
  "sublist (extract_user_from_keyname lower name) (py_strip (lower name))"
  using extract_cases[OF refl, of lower name] takeWhile_drop_sublist prefix_imp_sublist
  by metis

lemma takeWhile_az_no_leading_space:
  "dropWhile py_isspace (takeWhile is_az s) = takeWhile is_az s"
  by (cases s) (auto simp: is_az_not_space)

lemma extract_no_leading_space:
  "dropWhile py_isspace (extract_user_from_keyname lower name) =
   extract_user_from_keyname lower name"
  using extract_cases[OF refl, of lower name] takeWhile_az_no_leading_space
    no_leading_space_prefix[OF strip_no_leading_space] by metis

lemma list_all_takeWhile: "list_all P (takeWhile P s)"
  by (induction s) auto

lemma short_tail: "d = [] \<or> d = [x] \<Longrightarrow> length d \<le> 1"
  by auto

lemma match_short_length: "match_short s \<Longrightarrow> length s \<le> 7"
proof -
  assume m: "match_short s"
  have "length s = length (takeWhile is_az s) + length (dropWhile is_az s)"
    by (metis length_append takeWhile_dropWhile_id)
  moreover from m have "length (takeWhile is_az s) \<le> 6"
    by (simp add: match_short_def Let_def)
  moreover from m have "dropWhile is_az s = [] \<or> dropWhile is_az s = [of_char (CHR 0x0A)]"
    unfolding match_short_def Let_def by (elim conjE)
  then have "length (dropWhile is_az s) \<le> 1"
    using short_tail[of "dropWhile is_az s"] by blast
  ultimately show ?thesis by simp
qed

lemma extract_letters_or_cut:
  "(extract_user_from_keyname lower name \<noteq> [] \<and>
    list_all is_az (extract_user_from_keyname lower name)) \<or>
   extract_user_from_keyname lower name = take 10 (py_strip (lower name))"
proof (cases "match_claude_code_key (py_strip (lower name))")
  case (Some u)
  then have "u = takeWhile is_az (drop 16 (py_strip (lower name))) \<and> u \<noteq> []"
    by (auto simp: match_claude_code_key_def Let_def split: if_splits)
  then have "u \<noteq> [] \<and> list_all is_az u" using list_all_takeWhile[of is_az] by metis
  moreover from Some have "extract_user_from_keyname lower name = u"
    by (simp add: extract_user_from_keyname_def)
  ultimately show ?thesis by simp
next
  case None
  note n1 = None
  show ?thesis
  proof (cases "match_user_sep (py_strip (lower name))")
    case (Some u)
    then have "u = takeWhile is_az (py_strip (lower name)) \<and> u \<noteq> []"
      by (auto simp: match_user_sep_def Let_def split: if_splits)
    then have "u \<noteq> [] \<and> list_all is_az u" using list_all_takeWhile[of is_az] by metis
    moreover from Some n1 have "extract_user_from_keyname lower name = u"
      by (simp add: extract_user_from_keyname_def)
    ultimately show ?thesis by simp
  next
    case None
    show ?thesis
    proof (cases "match_short (py_strip (lower name))")
      case True
      from match_short_length[OF True] have "take 10 (py_strip (lower name)) = py_strip (lower name)"
        by simp
      with True n1 None show ?thesis by (simp add: extract_user_from_keyname_def)
    next
      case False
      with n1 None show ?thesis by (simp add: extract_user_from_keyname_def)
    qed
  qed
qed

text \<open>
  Claim C5. The extraction is a function of the key label alone, it tries its four patterns
  in order and the first that matches decides, and it maps
  \<^verbatim>\<open>claude_code_key_alice_7f3a\<close> to \<^verbatim>\<open>alice\<close>, \<^verbatim>\<open>bob-key\<close> to \<^verbatim>\<open>bob\<close>, \<^verbatim>\<open>DaveM\<close> to
  \<^verbatim>\<open>davem\<close> and \<^verbatim>\<open>xx\<close> to \<^verbatim>\<open>xx\<close>.
\<close>

theorem extract_user_first_match_wins:
  "extract_user_from_keyname lower_latin1 (code_points ''claude_code_key_alice_7f3a'')
     = code_points ''alice'' \<and>
   extract_user_from_keyname lower_latin1 (code_points ''bob-key'') = code_points ''bob'' \<and>
   extract_user_from_keyname lower_latin1 (code_points ''DaveM'') = code_points ''davem'' \<and>
   extract_user_from_keyname lower_latin1 (code_points ''xx'') = code_points ''xx'' \<and>
   (\<forall>name u. match_claude_code_key (py_strip (lower name)) = Some u \<longrightarrow>
      extract_user_from_keyname lower name = u) \<and>
   (\<forall>name u. match_claude_code_key (py_strip (lower name)) = None \<and>
      match_user_sep (py_strip (lower name)) = Some u \<longrightarrow>
      extract_user_from_keyname lower name = u) \<and>
   (\<forall>name. match_claude_code_key (py_strip (lower name)) = None \<and>
      match_user_sep (py_strip (lower name)) = None \<and>
      match_short (py_strip (lower name)) \<longrightarrow>
      extract_user_from_keyname lower name = py_strip (lower name)) \<and>
   (\<forall>name. match_claude_code_key (py_strip (lower name)) = None \<and>
      match_user_sep (py_strip (lower name)) = None \<and>
      \<not> match_short (py_strip (lower name)) \<longrightarrow>
      extract_user_from_keyname lower name = take 10 (py_strip (lower name)))"
proof -
  have a: "extract_user_from_keyname lower_latin1 (code_points ''claude_code_key_alice_7f3a'')
     = code_points ''alice''" by (simp add: cascade_defs)
  have b: "extract_user_from_keyname lower_latin1 (code_points ''bob-key'') = code_points ''bob''"
    by (simp add: cascade_defs)
  have c: "extract_user_from_keyname lower_latin1 (code_points ''DaveM'') = code_points ''davem''"
    by (simp add: cascade_defs)
  have d: "extract_user_from_keyname lower_latin1 (code_points ''xx'') = code_points ''xx''"
    by (simp add: cascade_defs)
  have e: "(\<forall>name u. match_claude_code_key (py_strip (lower name)) = Some u \<longrightarrow>
      extract_user_from_keyname lower name = u)"
    by (simp add: extract_user_from_keyname_def)
  have f: "(\<forall>name u. match_claude_code_key (py_strip (lower name)) = None \<and>
      match_user_sep (py_strip (lower name)) = Some u \<longrightarrow>
      extract_user_from_keyname lower name = u)"
    by (simp add: extract_user_from_keyname_def)
  have g: "(\<forall>name. match_claude_code_key (py_strip (lower name)) = None \<and>
      match_user_sep (py_strip (lower name)) = None \<and>
      match_short (py_strip (lower name)) \<longrightarrow>
      extract_user_from_keyname lower name = py_strip (lower name))"
    by (simp add: extract_user_from_keyname_def)
  have h: "(\<forall>name. match_claude_code_key (py_strip (lower name)) = None \<and>
      match_user_sep (py_strip (lower name)) = None \<and>
      \<not> match_short (py_strip (lower name)) \<longrightarrow>
      extract_user_from_keyname lower name = take 10 (py_strip (lower name)))"
    by (simp add: extract_user_from_keyname_def)
  show ?thesis using a b c d e f g h by (intro conjI) assumption+
qed

text \<open>
  The four rules at four labels. The first label also matches the second pattern, with
  \<^verbatim>\<open>claude\<close>: the first pattern wins.
\<close>

theorem extract_user_first_match_wins_witness:
  "match_claude_code_key (py_strip (lower_latin1 (code_points ''claude_code_key_alice_7f3a'')))
     = Some (code_points ''alice'') \<and>
   match_user_sep (py_strip (lower_latin1 (code_points ''claude_code_key_alice_7f3a'')))
     = Some (code_points ''claude'') \<and>
   extract_user_from_keyname lower_latin1 (code_points ''claude_code_key_alice_7f3a'')
     = code_points ''alice'' \<and>
   match_claude_code_key (py_strip (lower_latin1 (code_points ''bob-key''))) = None \<and>
   match_user_sep (py_strip (lower_latin1 (code_points ''bob-key''))) = Some (code_points ''bob'') \<and>
   extract_user_from_keyname lower_latin1 (code_points ''bob-key'') = code_points ''bob'' \<and>
   match_claude_code_key (py_strip (lower_latin1 (code_points ''DaveM''))) = None \<and>
   match_user_sep (py_strip (lower_latin1 (code_points ''DaveM''))) = None \<and>
   match_short (py_strip (lower_latin1 (code_points ''DaveM''))) \<and>
   extract_user_from_keyname lower_latin1 (code_points ''DaveM'')
     = py_strip (lower_latin1 (code_points ''DaveM'')) \<and>
   match_claude_code_key (py_strip (lower_latin1 (code_points ''Team Platform Key''))) = None \<and>
   match_user_sep (py_strip (lower_latin1 (code_points ''Team Platform Key''))) = None \<and>
   \<not> match_short (py_strip (lower_latin1 (code_points ''Team Platform Key''))) \<and>
   extract_user_from_keyname lower_latin1 (code_points ''Team Platform Key'')
     = take 10 (py_strip (lower_latin1 (code_points ''Team Platform Key'')))"
proof -
  let ?l = "\<lambda>s. py_strip (lower_latin1 (code_points s))"
  have h1: "match_claude_code_key (?l ''claude_code_key_alice_7f3a'') = Some (code_points ''alice'')"
    by (simp add: cascade_defs)
  have h1': "match_user_sep (?l ''claude_code_key_alice_7f3a'') = Some (code_points ''claude'')"
    by (simp add: cascade_defs)
  have h2: "match_claude_code_key (?l ''bob-key'') = None \<and>
            match_user_sep (?l ''bob-key'') = Some (code_points ''bob'')"
    by (simp add: cascade_defs)
  have h3: "match_claude_code_key (?l ''DaveM'') = None \<and>
            match_user_sep (?l ''DaveM'') = None \<and> match_short (?l ''DaveM'')"
    by (simp add: cascade_defs)
  have h4: "match_claude_code_key (?l ''Team Platform Key'') = None \<and>
            match_user_sep (?l ''Team Platform Key'') = None \<and>
            \<not> match_short (?l ''Team Platform Key'')"
    by (simp add: cascade_defs)
  note T = extract_user_first_match_wins[of lower_latin1]
  from T h1 have c1: "extract_user_from_keyname lower_latin1
      (code_points ''claude_code_key_alice_7f3a'') = code_points ''alice''"
    by blast
  from T h2 have c2: "extract_user_from_keyname lower_latin1 (code_points ''bob-key'')
      = code_points ''bob''"
    by blast
  from T h3 have c3: "extract_user_from_keyname lower_latin1 (code_points ''DaveM'')
      = ?l ''DaveM''"
    by blast
  from T h4 have c4: "extract_user_from_keyname lower_latin1 (code_points ''Team Platform Key'')
      = take 10 (?l ''Team Platform Key'')"
    by blast
  from h1 h1' h2 h3 h4 c1 c2 c3 c4 show ?thesis by blast
qed

text \<open>
  Claim C10, as amended. For every label, of any code points, the result is a contiguous
  part of the lower-cased, stripped label and it has no leading whitespace; it is either a
  non-empty run of the letters \<^verbatim>\<open>a\<close> to \<^verbatim>\<open>z\<close> or the first ten code points of the
  lower-cased, stripped label. The function is total: every label, the empty one too, has a
  result. Neither whitespace at the end of the result nor an upper-case letter that
  \<^verbatim>\<open>str.lower\<close> leaves as it is, is excluded.
\<close>

theorem extract_user_substring:
  "sublist (extract_user_from_keyname lower name) (py_strip (lower name)) \<and>
   dropWhile py_isspace (extract_user_from_keyname lower name) =
     extract_user_from_keyname lower name \<and>
   ((extract_user_from_keyname lower name \<noteq> [] \<and>
     list_all is_az (extract_user_from_keyname lower name)) \<or>
    extract_user_from_keyname lower name = take 10 (py_strip (lower name)))"
  using extract_sublist[of lower name] extract_no_leading_space[of lower name]
    extract_letters_or_cut[of lower name]
  by (intro conjI) assumption+

text \<open>
  Claim C10 as stated fails twice: the fallback cuts the label after ten code points, and
  the tenth can be a blank inside the label, so that the result ends in whitespace; and the
  label that is the one letter U+03D2 (978, of category Lu), which \<^verbatim>\<open>str.lower\<close> leaves
  as it is, is returned as it is.
\<close>

theorem extract_user_keeps_blank_and_capital:
  "extract_user_from_keyname lower_latin1 (code_points ''hello wor ld'')
     = code_points ''hello wor '' \<and>
   py_strip (extract_user_from_keyname lower_latin1 (code_points ''hello wor ld'')) \<noteq>
     extract_user_from_keyname lower_latin1 (code_points ''hello wor ld'') \<and>
   lower_latin1 [978] = [978] \<and>
   extract_user_from_keyname lower_latin1 [978] = [978]"
  by (simp add: cascade_defs)

section \<open>The cost calculator\<close>

lemma get_pricing_pos:
  "get_pricing m = (a, b, c, d) \<Longrightarrow> 0 < a \<and> 0 < b \<and> 0 < c \<and> 0 < d"
  unfolding get_pricing_def matching_entry_def MODEL_PRICING_def DEFAULT_PRICING_def
  by (auto split: option.splits if_splits)

lemma matching_entry_Some:
  assumes "matching_entry ml = Some (pfx, p)"
  shows "(pfx, p) \<in> set MODEL_PRICING \<and> pfx \<noteq> ''_default'' \<and> startswith ml pfx"
  using assms unfolding matching_entry_def MODEL_PRICING_def
  by (auto split: if_splits)

text \<open>
  Claim C6. A usage record of model \<^verbatim>\<open>claude-sonnet-4-x\<close> with a million uncached input
  tokens and every other token count zero or absent costs exactly 3 dollars. The model is
  matched by the entry \<^verbatim>\<open>claude-sonnet-4\<close> of the pricing table, not by the default:
  whenever the loop of \<^verbatim>\<open>_get_pricing\<close> finds an entry, that entry is a row of the table
  other than \<^verbatim>\<open>_default\<close>, its prefix begins the lower-cased model name, and its rates
  are the rates returned; the default rates are returned when no entry is found. The cost
  is the sum over the token kinds of the count divided by a million times the rate.
\<close>

theorem sonnet_million_input_costs_three:
  "(model r = Some ''claude-sonnet-4-x'' \<and> get0 (uncached_input_tokens r) = 1000000 \<and>
    get0 (cache_read_input_tokens r) = 0 \<and> get0 (output_tokens r) = 0 \<and>
    cache_write_tokens r = 0 \<longrightarrow> calc_cost r = 3) \<and>
   matching_entry (py_lower ''claude-sonnet-4-x'')
     = Some (''claude-sonnet-4'', 3, 3 / 10, 15 / 4, 15) \<and>
   (\<forall>m pfx p. matching_entry (py_lower m) = Some (pfx, p) \<longrightarrow>
      get_pricing m = p \<and> (pfx, p) \<in> set MODEL_PRICING \<and> pfx \<noteq> ''_default'' \<and>
      startswith (py_lower m) pfx) \<and>
   (\<forall>m. matching_entry (py_lower m) = None \<longrightarrow> get_pricing m = DEFAULT_PRICING) \<and>
   calc_cost r =
     (case get_pricing (case model r of None \<Rightarrow> [] | Some s \<Rightarrow> s) of
        (inp_price, cache_read_price, cache_write_price, out_price) \<Rightarrow>
          of_int (get0 (uncached_input_tokens r)) / 1000000 * inp_price
          + of_int (get0 (cache_read_input_tokens r)) / 1000000 * cache_read_price
          + of_int (cache_write_tokens r) / 1000000 * cache_write_price
          + of_int (get0 (output_tokens r)) / 1000000 * out_price)"
proof -
  have m: "matching_entry (py_lower ''claude-sonnet-4-x'')
           = Some (''claude-sonnet-4'', 3, 3 / 10, 15 / 4, 15)"
    by code_simp
  then have p: "get_pricing ''claude-sonnet-4-x'' = (3, 3 / 10, 15 / 4, 15)"
    by (simp add: get_pricing_def)
  have f: "calc_cost r =
     (case get_pricing (case model r of None \<Rightarrow> [] | Some s \<Rightarrow> s) of
        (inp_price, cache_read_price, cache_write_price, out_price) \<Rightarrow>
          of_int (get0 (uncached_input_tokens r)) / 1000000 * inp_price
          + of_int (get0 (cache_read_input_tokens r)) / 1000000 * cache_read_price
          + of_int (cache_write_tokens r) / 1000000 * cache_write_price
          + of_int (get0 (output_tokens r)) / 1000000 * out_price)"
    by (simp add: calc_cost_def Let_def split: prod.splits)
  have c: "model r = Some ''claude-sonnet-4-x'' \<and> get0 (uncached_input_tokens r) = 1000000 \<and>
    get0 (cache_read_input_tokens r) = 0 \<and> get0 (output_tokens r) = 0 \<and>
    cache_write_tokens r = 0 \<longrightarrow> calc_cost r = 3"
    using p by (simp add: f)
  have t: "\<forall>m pfx p. matching_entry (py_lower m) = Some (pfx, p) \<longrightarrow>
      get_pricing m = p \<and> (pfx, p) \<in> set MODEL_PRICING \<and> pfx \<noteq> ''_default'' \<and>
      startswith (py_lower m) pfx"
  proof (intro allI impI)
    fix m pfx p
    assume a: "matching_entry (py_lower m) = Some (pfx, p)"
    then have "get_pricing m = p" by (simp add: get_pricing_def)
    with matching_entry_Some[OF a]
    show "get_pricing m = p \<and> (pfx, p) \<in> set MODEL_PRICING \<and> pfx \<noteq> ''_default'' \<and>
      startswith (py_lower m) pfx"
      by (intro conjI) (elim conjE, assumption)+
  qed
  have n: "\<forall>m. matching_entry (py_lower m) = None \<longrightarrow> get_pricing m = DEFAULT_PRICING"
    by (simp add: get_pricing_def)
  show ?thesis using c m t n f by (intro conjI) assumption+
qed

text \<open>
  The record of the scenario costs 3 dollars. \<^verbatim>\<open>Claude-Opus-4-1\<close> is matched by the entry
  \<^verbatim>\<open>claude-opus-4\<close> and gets its rates, which differ from the default rates;
  \<^verbatim>\<open>other-model\<close> matches no entry and gets the default rates.
\<close>

theorem sonnet_million_input_costs_three_witness:
  "model \<lparr>api_key_id = Some ''key_1'', model = Some ''claude-sonnet-4-x'',
           uncached_input_tokens = Some 1000000, cache_read_input_tokens = None,
           output_tokens = Some 0, cache_creation = None\<rparr> = Some ''claude-sonnet-4-x'' \<and>
   calc_cost \<lparr>api_key_id = Some ''key_1'', model = Some ''claude-sonnet-4-x'',
           uncached_input_tokens = Some 1000000, cache_read_input_tokens = None,
           output_tokens = Some 0, cache_creation = None\<rparr> = 3 \<and>
   matching_entry (py_lower ''Claude-Opus-4-1'') = Some (''claude-opus-4'', 15, 3 / 2, 75 / 4, 75) \<and>
   get_pricing ''Claude-Opus-4-1'' = (15, 3 / 2, 75 / 4, 75) \<and>
   matching_entry (py_lower ''other-model'') = None \<and>
   get_pricing ''other-model'' = DEFAULT_PRICING"
proof -
  let ?r = "\<lparr>api_key_id = Some ''key_1'', model = Some ''claude-sonnet-4-x'',
           uncached_input_tokens = Some 1000000, cache_read_input_tokens = None,
           output_tokens = Some 0, cache_creation = None\<rparr>"
  note T = sonnet_million_input_costs_three[of ?r]
  from T have T1: "model ?r = Some ''claude-sonnet-4-x'' \<and> get0 (uncached_input_tokens ?r) = 1000000 \<and>
    get0 (cache_read_input_tokens ?r) = 0 \<and> get0 (output_tokens ?r) = 0 \<and>
    cache_write_tokens ?r = 0 \<longrightarrow> calc_cost ?r = 3"
    by (elim conjE)
  from T have T3: "\<forall>m pfx p. matching_entry (py_lower m) = Some (pfx, p) \<longrightarrow>
      get_pricing m = p \<and> (pfx, p) \<in> set MODEL_PRICING \<and> pfx \<noteq> ''_default'' \<and>
      startswith (py_lower m) pfx"
    by (elim conjE)
  from T have T4: "\<forall>m. matching_entry (py_lower m) = None \<longrightarrow> get_pricing m = DEFAULT_PRICING"
    by (elim conjE)
  have h: "model ?r = Some ''claude-sonnet-4-x'' \<and> get0 (uncached_input_tokens ?r) = 1000000 \<and>
    get0 (cache_read_input_tokens ?r) = 0 \<and> get0 (output_tokens ?r) = 0 \<and>
    cache_write_tokens ?r = 0"
    by (simp add: get0_def cache_write_tokens_def)
  have o: "matching_entry (py_lower ''Claude-Opus-4-1'')
           = Some (''claude-opus-4'', 15, 3 / 2, 75 / 4, 75)"
    by code_simp
  have d: "matching_entry (py_lower ''other-model'') = None" by code_simp
  from T1 h have c: "calc_cost ?r = 3" by (rule mp)
  from T3 o have po: "get_pricing ''Claude-Opus-4-1'' = (15, 3 / 2, 75 / 4, 75)" by blast
  from T4 d have pd: "get_pricing ''other-model'' = DEFAULT_PRICING" by blast
  have hm: "model ?r = Some ''claude-sonnet-4-x''" by simp
  show ?thesis using hm c o po d pd by (intro conjI) assumption+
qed

text \<open>
  Claim C7. With the model fixed, a record whose token counts are each at least those of
  another costs at least as much (so the cost is monotonic in each token field, the others
  held fixed); and a record whose token counts are all zero or missing costs exactly 0.
  Neither needs the counts to be non-negative.
\<close>

theorem calc_cost_monotone_and_zero:
  "(model r = model r' \<and>
    get0 (uncached_input_tokens r) \<le> get0 (uncached_input_tokens r') \<and>
    get0 (cache_read_input_tokens r) \<le> get0 (cache_read_input_tokens r') \<and>
    cache_write_tokens r \<le> cache_write_tokens r' \<and>
    get0 (output_tokens r) \<le> get0 (output_tokens r') \<longrightarrow> calc_cost r \<le> calc_cost r') \<and>
   (get0 (uncached_input_tokens r) = 0 \<and> get0 (cache_read_input_tokens r) = 0 \<and>
    cache_write_tokens r = 0 \<and> get0 (output_tokens r) = 0 \<longrightarrow> calc_cost r = 0)"
proof -
  obtain a b c d where p: "get_pricing (case model r of None \<Rightarrow> [] | Some s \<Rightarrow> s) = (a, b, c, d)"
    by (metis prod_cases4)
  from get_pricing_pos[OF p] have pos: "0 \<le> a" "0 \<le> b" "0 \<le> c" "0 \<le> d" by simp_all
  have z: "calc_cost r = 0"
    if "get0 (uncached_input_tokens r) = 0" "get0 (cache_read_input_tokens r) = 0"
       "cache_write_tokens r = 0" "get0 (output_tokens r) = 0"
    using that by (simp add: calc_cost_def Let_def p)
  have mono: "calc_cost r \<le> calc_cost r'"
    if m: "model r = model r'"
      and u: "get0 (uncached_input_tokens r) \<le> get0 (uncached_input_tokens r')"
      and cr: "get0 (cache_read_input_tokens r) \<le> get0 (cache_read_input_tokens r')"
      and cw: "cache_write_tokens r \<le> cache_write_tokens r'"
      and out: "get0 (output_tokens r) \<le> get0 (output_tokens r')"
  proof -
    have p': "get_pricing (case model r' of None \<Rightarrow> [] | Some s \<Rightarrow> s) = (a, b, c, d)"
      using p m by simp
    have 1: "(of_int (get0 (uncached_input_tokens r)) :: rat) * a \<le> of_int (get0 (uncached_input_tokens r')) * a"
      using u pos by (simp add: mult_right_mono)
    have 2: "(of_int (get0 (cache_read_input_tokens r)) :: rat) * b \<le> of_int (get0 (cache_read_input_tokens r')) * b"
      using cr pos by (simp add: mult_right_mono)
    have 3: "(of_int (cache_write_tokens r) :: rat) * c \<le> of_int (cache_write_tokens r') * c"
      using cw pos by (simp add: mult_right_mono)
    have 4: "(of_int (get0 (output_tokens r)) :: rat) * d \<le> of_int (get0 (output_tokens r')) * d"
      using out pos by (simp add: mult_right_mono)
    show ?thesis
      unfolding calc_cost_def Let_def p p' using 1 2 3 4
      by (simp add: divide_right_mono add_mono)
  qed
  from z mono show ?thesis by blast
qed


theorem calc_cost_monotone_and_zero_witness:
  "calc_cost \<lparr>api_key_id = None, model = Some ''claude-opus-4-1'',
        uncached_input_tokens = Some 10, cache_read_input_tokens = None,
        output_tokens = Some 5, cache_creation = None\<rparr>
   \<le> calc_cost \<lparr>api_key_id = None, model = Some ''claude-opus-4-1'',
        uncached_input_tokens = Some 11, cache_read_input_tokens = Some 2,
        output_tokens = Some 5,
        cache_creation = Some \<lparr>ephemeral_5m_input_tokens = Some 1,
                                 ephemeral_1h_input_tokens = None\<rparr>\<rparr> \<and>
   calc_cost \<lparr>api_key_id = None, model = None,
        uncached_input_tokens = Some 0, cache_read_input_tokens = None,
        output_tokens = None, cache_creation = None\<rparr> = 0"
  using calc_cost_monotone_and_zero
    [of "\<lparr>api_key_id = None, model = Some ''claude-opus-4-1'',
        uncached_input_tokens = Some 10, cache_read_input_tokens = None,
        output_tokens = Some 5, cache_creation = None\<rparr>"
        "\<lparr>api_key_id = None, model = Some ''claude-opus-4-1'',
        uncached_input_tokens = Some 11, cache_read_input_tokens = Some 2,
        output_tokens = Some 5,
        cache_creation = Some \<lparr>ephemeral_5m_input_tokens = Some 1,
                                 ephemeral_1h_input_tokens = None\<rparr>\<rparr>"]
    calc_cost_monotone_and_zero
    [of "\<lparr>api_key_id = None, model = None,
        uncached_input_tokens = Some 0, cache_read_input_tokens = None,
        output_tokens = None, cache_creation = None\<rparr>"]
  by (simp add: get0_def cache_write_tokens_def)

section \<open>Deduplication of pull requests\<close>

lemma dedup_loop_acc: "dedup_loop seen acc xs = acc @ dedup_loop seen [] xs"
proof (induction xs arbitrary: seen acc)
  case Nil
  show ?case by simp
next
  case (Cons pr rest)
  show ?case
  proof (cases "pullRequestId pr \<in> seen")
    case True
    then show ?thesis using Cons.IH[of seen acc] by simp
  next
    case False
    then show ?thesis
      using Cons.IH[of "insert (pullRequestId pr) seen" "acc @ [pr]"]
        Cons.IH[of "insert (pullRequestId pr) seen" "[pr]"]
      by simp
  qed
qed

lemma dedup_loop_Cons:
  "dedup_loop seen [] (pr # rest) =
     (if pullRequestId pr \<in> seen then dedup_loop seen [] rest
      else pr # dedup_loop (insert (pullRequestId pr) seen) [] rest)"
  using dedup_loop_acc[of "insert (pullRequestId pr) seen" "[pr]" rest] by simp

lemma dedup_loop_ids:
  "set (map pullRequestId (dedup_loop seen [] xs)) = set (map pullRequestId xs) - seen"
  by (induction xs arbitrary: seen) (auto simp: dedup_loop_Cons simp del: dedup_loop.simps(2))

lemma dedup_loop_distinct: "distinct (map pullRequestId (dedup_loop seen [] xs))"
proof (induction xs arbitrary: seen)
  case Nil
  show ?case by simp
next
  case (Cons pr rest)
  have "pullRequestId pr \<notin> set (map pullRequestId (dedup_loop (insert (pullRequestId pr) seen) [] rest))"
    unfolding dedup_loop_ids by simp
  with Cons show ?case by (simp add: dedup_loop_Cons del: dedup_loop.simps(2))
qed

lemma dedup_loop_first:
  "pr \<in> set (dedup_loop seen [] xs) \<Longrightarrow>
   find (\<lambda>q. pullRequestId q = pullRequestId pr) xs = Some pr"
proof (induction xs arbitrary: seen)
  case Nil
  then show ?case by simp
next
  case (Cons x rest)
  show ?case
  proof (cases "pullRequestId x \<in> seen")
    case True
    with Cons.prems have in_rest: "pr \<in> set (dedup_loop seen [] rest)"
      by (simp add: dedup_loop_Cons del: dedup_loop.simps(2))
    then have "pullRequestId pr \<in> set (map pullRequestId (dedup_loop seen [] rest))"
      by (metis image_eqI list.set_map)
    then have "pullRequestId pr \<notin> seen" unfolding dedup_loop_ids by simp
    with True have "pullRequestId x \<noteq> pullRequestId pr" by auto
    with Cons.IH[OF in_rest] show ?thesis by simp
  next
    case False
    with Cons.prems have "pr = x \<or> pr \<in> set (dedup_loop (insert (pullRequestId x) seen) [] rest)"
      by (simp add: dedup_loop_Cons del: dedup_loop.simps(2))
    then show ?thesis
    proof
      assume "pr = x"
      then show ?thesis by simp
    next
      assume in_rest: "pr \<in> set (dedup_loop (insert (pullRequestId x) seen) [] rest)"
      then have "pullRequestId pr \<in> set (map pullRequestId (dedup_loop (insert (pullRequestId x) seen) [] rest))"
        by (metis image_eqI list.set_map)
      then have "pullRequestId pr \<noteq> pullRequestId x" unfolding dedup_loop_ids by auto
      with Cons.IH[OF in_rest] show ?thesis by simp
    qed
  qed
qed

lemma dedup_loop_subseq: "subseq (dedup_loop seen [] xs) xs"
  by (induction xs arbitrary: seen) (auto simp: dedup_loop_Cons simp del: dedup_loop.simps(2))

text \<open>
  Claim C2, as amended. The deduplicated list has exactly one record for each pull request
  identifier of the input, in the order of the input, and for each identifier the record
  kept is the first one of the input with that identifier: the first seen wins.
\<close>

theorem dedup_first_seen_wins:
  "distinct (map pullRequestId (dedup_prs all_prs)) \<and>
   set (map pullRequestId (dedup_prs all_prs)) = set (map pullRequestId all_prs) \<and>
   subseq (dedup_prs all_prs) all_prs \<and>
   (\<forall>pr \<in> set (dedup_prs all_prs).
      find (\<lambda>q. pullRequestId q = pullRequestId pr) all_prs = Some pr)"
  unfolding dedup_prs_def
  using dedup_loop_distinct[of "{}" all_prs] dedup_loop_ids[of "{}" all_prs]
    dedup_loop_subseq[of "{}" all_prs] dedup_loop_first[of _ "{}" all_prs]
  by simp

text \<open>
  An input with the identifier 3 twice and 5 once: the record kept for 3 is the first.
\<close>

theorem dedup_first_seen_wins_witness:
  "distinct (map pullRequestId (dedup_prs
     [\<lparr>pullRequestId = 3, repository_name = ''a'', title = ''One'', status = ''completed'',
       target = ''main'', creationDate = None, closedDate = None\<rparr>,
      \<lparr>pullRequestId = 5, repository_name = ''a'', title = ''Two'', status = ''active'',
       target = ''main'', creationDate = None, closedDate = None\<rparr>,
      \<lparr>pullRequestId = 3, repository_name = ''a'', title = ''One'', status = ''active'',
       target = ''main'', creationDate = None, closedDate = None\<rparr>])) \<and>
   \<lparr>pullRequestId = 3, repository_name = ''a'', title = ''One'', status = ''completed'',
       target = ''main'', creationDate = None, closedDate = None\<rparr>
     \<in> set (dedup_prs
     [\<lparr>pullRequestId = 3, repository_name = ''a'', title = ''One'', status = ''completed'',
       target = ''main'', creationDate = None, closedDate = None\<rparr>,
      \<lparr>pullRequestId = 5, repository_name = ''a'', title = ''Two'', status = ''active'',
       target = ''main'', creationDate = None, closedDate = None\<rparr>,
      \<lparr>pullRequestId = 3, repository_name = ''a'', title = ''One'', status = ''active'',
       target = ''main'', creationDate = None, closedDate = None\<rparr>]) \<and>
   find (\<lambda>q. pullRequestId q = 3)
     [\<lparr>pullRequestId = 3, repository_name = ''a'', title = ''One'', status = ''completed'',
       target = ''main'', creationDate = None, closedDate = None\<rparr>,
      \<lparr>pullRequestId = 5, repository_name = ''a'', title = ''Two'', status = ''active'',
       target = ''main'', creationDate = None, closedDate = None\<rparr>,
      \<lparr>pullRequestId = 3, repository_name = ''a'', title = ''One'', status = ''active'',
       target = ''main'', creationDate = None, closedDate = None\<rparr>]
   = Some \<lparr>pullRequestId = 3, repository_name = ''a'', title = ''One'', status = ''completed'',
       target = ''main'', creationDate = None, closedDate = None\<rparr>"
proof -
  let ?a = "\<lparr>pullRequestId = 3, repository_name = ''a'', title = ''One'', status = ''completed'',
       target = ''main'', creationDate = None, closedDate = None\<rparr>"
  let ?b = "\<lparr>pullRequestId = 5, repository_name = ''a'', title = ''Two'', status = ''active'',
       target = ''main'', creationDate = None, closedDate = None\<rparr>"
  let ?c = "\<lparr>pullRequestId = 3, repository_name = ''a'', title = ''One'', status = ''active'',
       target = ''main'', creationDate = None, closedDate = None\<rparr>"
  have e: "dedup_prs [?a, ?b, ?c] = [?a, ?b]" by code_simp
  then have m: "?a \<in> set (dedup_prs [?a, ?b, ?c])" by simp
  from dedup_first_seen_wins[of "[?a, ?b, ?c]"] m
  have "distinct (map pullRequestId (dedup_prs [?a, ?b, ?c]))"
    and "find (\<lambda>q. pullRequestId q = pullRequestId ?a) [?a, ?b, ?c] = Some ?a"
    by blast+
  with m show ?thesis by simp
qed

text \<open>
  Claim C2 as stated fails: a pull request seen as active and then, in the later query, as
  abandoned keeps its first record, the active one; the last seen record is dropped.
\<close>

theorem dedup_last_seen_loses:
  "dedup_prs
     [\<lparr>pullRequestId = 7, repository_name = ''repo'', title = ''Fix'', status = ''active'',
       target = ''main'', creationDate = Some 63906364800000000, closedDate = None\<rparr>,
      \<lparr>pullRequestId = 7, repository_name = ''repo'', title = ''Fix'', status = ''abandoned'',
       target = ''main'', creationDate = Some 63906364800000000,
       closedDate = Some 63906400000000000\<rparr>]
   = [\<lparr>pullRequestId = 7, repository_name = ''repo'', title = ''Fix'', status = ''active'',
       target = ''main'', creationDate = Some 63906364800000000, closedDate = None\<rparr>]"
  by code_simp

section \<open>The day axis\<close>

lemma dates_loop_upto: "dates_loop d today = [d..today]"
proof (induction d today rule: dates_loop.induct)
  case (1 d today)
  show ?case
  proof (cases "d \<le> today")
    case True
    with 1 show ?thesis by (subst dates_loop.simps, subst upto.simps) simp
  next
    case False
    then show ?thesis by (subst dates_loop.simps, subst upto.simps) simp
  qed
qed

lemma day_entries_upto: "map fst (day_entries daily d end_d) = [d..end_d]"
proof (induction daily d end_d rule: day_entries.induct)
  case (1 daily d end_d)
  show ?case
  proof (cases "d \<le> end_d")
    case True
    with 1 show ?thesis by (subst day_entries.simps, subst upto.simps) simp
  next
    case False
    then show ?thesis by (subst day_entries.simps, subst upto.simps) simp
  qed
qed

lemma day_entries_items:
  "(d', items) \<in> set (day_entries daily d end_d) \<Longrightarrow>
   items = (case daily d' of None \<Rightarrow> [] | Some es \<Rightarrow> es)"
proof (induction daily d end_d rule: day_entries.induct)
  case (1 daily d end_d)
  from "1.prems" have le: "d \<le> end_d"
    by (subst (asm) day_entries.simps) (simp split: if_splits)
  with "1.prems" have "(d', items) = (d, case daily d of None \<Rightarrow> [] | Some es \<Rightarrow> es) \<or>
      (d', items) \<in> set (day_entries daily (d + 1) end_d)"
    by (subst (asm) day_entries.simps) simp
  then show ?case using "1.IH"[OF le] by auto
qed

lemma usec_per_day_pos: "0 < usec_per_day"
  by (simp add: usec_per_day_def)

lemma date_of_mono: "s \<le> t \<Longrightarrow> date_of s \<le> date_of t"
  unfolding date_of_def by (rule zdiv_mono1) (simp_all add: usec_per_day_pos)

lemma date_of_midnight: "date_of (k * usec_per_day) = k"
  using usec_per_day_pos by (simp add: date_of_def)

lemma date_of_minus_days: "date_of (t - n * usec_per_day) = date_of t - n"
proof -
  have "(t + (- n) * usec_per_day) div usec_per_day = (- n) + t div usec_per_day"
    by (rule div_mult_self1) (simp add: usec_per_day_def)
  then show ?thesis by (simp add: date_of_def)
qed

lemma date_of_end_of_day: "date_of (k * usec_per_day + end_of_day) = k"
proof -
  have "(end_of_day + k * usec_per_day) div usec_per_day = k + end_of_day div usec_per_day"
    by (rule div_mult_self1) (simp add: usec_per_day_def)
  moreover have "end_of_day div usec_per_day = 0"
    by (simp add: usec_per_day_def end_of_day_def)
  ultimately show ?thesis by (simp add: date_of_def add.commute)
qed

lemma range_start_shape:
  "determine_range parse a now = Inr (start, finish) \<Longrightarrow>
   (\<exists>k. start = k * usec_per_day) \<or> (\<exists>n. start = finish - n * usec_per_day)"
  unfolding determine_range_def parse_day_def
  by (auto split: if_splits option.splits sum.splits)

lemma range_days:
  assumes "determine_range parse a now = Inr (start, finish)" and "start \<le> finish"
  shows "date_of start \<le> date_of finish"
    and "timedelta_days finish start = date_of finish - date_of start"
proof -
  show "date_of start \<le> date_of finish" using assms(2) by (rule date_of_mono)
  from range_start_shape[OF assms(1)]
  show "timedelta_days finish start = date_of finish - date_of start"
  proof
    assume "\<exists>k. start = k * usec_per_day"
    then obtain k where k: "start = k * usec_per_day" ..
    have "timedelta_days finish start = date_of (finish - k * usec_per_day)"
      by (simp add: timedelta_days_def date_of_def k)
    then show ?thesis by (simp add: date_of_minus_days k date_of_midnight)
  next
    assume "\<exists>n. start = finish - n * usec_per_day"
    then obtain n where n: "start = finish - n * usec_per_day" ..
    have "finish - start = n * usec_per_day" using n by simp
    then have "timedelta_days finish start = date_of (n * usec_per_day)"
      by (simp add: timedelta_days_def date_of_def)
    then show ?thesis by (simp add: date_of_midnight n date_of_minus_days)
  qed
qed

lemma main_Inr:
  assumes "main parse collect a now = Inr r"
  shows "determine_range parse a now = Inr (range r)"
    and "collected r = collectors a"
    and "printed r =
           (if json a
            then JsonReport (range r)
                   (merge_daily (map (\<lambda>c. collect c (fst (range r)) (snd (range r)))
                                   (collectors a)))
            else TextReport
                   (format_text_days
                      (merge_daily (map (\<lambda>c. collect c (fst (range r)) (snd (range r)))
                                      (collectors a)))
                      (fst (range r)) (snd (range r))))"
proof -
  from assms obtain start finish where
    d: "determine_range parse a now = Inr (start, finish)"
    by (auto simp: main_def split: sum.splits)
  with assms have r: "r = \<lparr>range = (start, finish), collected = collectors a,
      printed = (if json a
                 then JsonReport (start, finish)
                        (merge_daily (map (\<lambda>c. collect c start finish) (collectors a)))
                 else TextReport
                        (format_text_days
                           (merge_daily (map (\<lambda>c. collect c start finish) (collectors a)))
                           start finish))\<rparr>"
    by (simp add: main_def Let_def)
  show "determine_range parse a now = Inr (range r)" using d by (simp add: r)
  show "collected r = collectors a" by (simp add: r)
  show "printed r =
           (if json a
            then JsonReport (range r)
                   (merge_daily (map (\<lambda>c. collect c (fst (range r)) (snd (range r)))
                                   (collectors a)))
            else TextReport
                   (format_text_days
                      (merge_daily (map (\<lambda>c. collect c (fst (range r)) (snd (range r)))
                                      (collectors a)))
                      (fst (range r)) (snd (range r))))"
    by (simp add: r)
qed

text \<open>
  Claim C9, as amended. The range of a run of \<^verbatim>\<open>main\<close> of \<^verbatim>\<open>time-report.py\<close> is the one
  determined from its arguments and the clock. When its start is not after its end, a
  run without \<^verbatim>\<open>--json\<close> prints one entry for each calendar day from the day of start to the day of end, in
  order, without a gap or a repetition: \<^verbatim>\<open>(end - start).days + 1\<close> entries, whatever the
  events are; a day without events has the empty list of items. A run with \<^verbatim>\<open>--json\<close>
  prints the merged dictionary as it is. For any two instants the day loop of
  \<^verbatim>\<open>format_text\<close> lists the days from the day of start to the day of end. The date axis
  of \<^verbatim>\<open>build_consumption_chart\<close> has the \<^verbatim>\<open>days + 1\<close> days from \<^verbatim>\<open>today - days\<close> to
  \<^verbatim>\<open>today\<close>.
\<close>

theorem text_report_day_axis_dense:
  "(main parse collect a now = Inr r \<longrightarrow> determine_range parse a now = Inr (range r)) \<and>
   (main parse collect a now = Inr r \<and> \<not> json a \<and> fst (range r) \<le> snd (range r) \<longrightarrow>
      (\<exists>entries.
         printed r = TextReport entries \<and>
         map fst entries = [date_of (fst (range r))..date_of (snd (range r))] \<and>
         int (length entries) = timedelta_days (snd (range r)) (fst (range r)) + 1 \<and>
         (\<forall>d items. (d, items) \<in> set entries \<longrightarrow>
            items =
              (case merge_daily (map (\<lambda>c. collect c (fst (range r)) (snd (range r)))
                                   (collectors a)) d of
                 None \<Rightarrow> [] | Some es \<Rightarrow> es)))) \<and>
   (main parse collect a now = Inr r \<and> json a \<longrightarrow>
      printed r =
        JsonReport (range r)
          (merge_daily (map (\<lambda>c. collect c (fst (range r)) (snd (range r))) (collectors a)))) \<and>
   map fst (format_text_days daily start finish) = [date_of start..date_of finish] \<and>
   (0 \<le> n \<longrightarrow>
      chart_dates today n = [today - n..today] \<and> int (length (chart_dates today n)) = n + 1)"
proof -
  have m: "map fst (format_text_days daily start finish) = [date_of start..date_of finish]"
    for daily start finish
    by (simp add: format_text_days_def day_entries_upto)
  have A: "main parse collect a now = Inr r \<and> \<not> json a \<and> fst (range r) \<le> snd (range r) \<longrightarrow>
      (\<exists>entries.
         printed r = TextReport entries \<and>
         map fst entries = [date_of (fst (range r))..date_of (snd (range r))] \<and>
         int (length entries) = timedelta_days (snd (range r)) (fst (range r)) + 1 \<and>
         (\<forall>d items. (d, items) \<in> set entries \<longrightarrow>
            items =
              (case merge_daily (map (\<lambda>c. collect c (fst (range r)) (snd (range r)))
                                   (collectors a)) d of
                 None \<Rightarrow> [] | Some es \<Rightarrow> es)))"
  proof (intro impI, elim conjE)
    assume r: "main parse collect a now = Inr r" and j: "\<not> json a"
      and le: "fst (range r) \<le> snd (range r)"
    let ?daily = "merge_daily (map (\<lambda>c. collect c (fst (range r)) (snd (range r)))
                                   (collectors a))"
    let ?entries = "format_text_days ?daily (fst (range r)) (snd (range r))"
    have p: "printed r = TextReport ?entries" using main_Inr(3)[OF r] j by simp
    have dr: "determine_range parse a now = Inr (fst (range r), snd (range r))"
      using main_Inr(1)[OF r] by simp
    have "length ?entries = length [date_of (fst (range r))..date_of (snd (range r))]"
      using m[of ?daily] by (metis length_map)
    with range_days[OF dr le]
    have l: "int (length ?entries) = timedelta_days (snd (range r)) (fst (range r)) + 1"
      by simp
    have i: "\<forall>d items. (d, items) \<in> set ?entries \<longrightarrow>
               items = (case ?daily d of None \<Rightarrow> [] | Some es \<Rightarrow> es)"
      using day_entries_items by (simp add: format_text_days_def)
    show "\<exists>entries.
         printed r = TextReport entries \<and>
         map fst entries = [date_of (fst (range r))..date_of (snd (range r))] \<and>
         int (length entries) = timedelta_days (snd (range r)) (fst (range r)) + 1 \<and>
         (\<forall>d items. (d, items) \<in> set entries \<longrightarrow>
            items = (case ?daily d of None \<Rightarrow> [] | Some es \<Rightarrow> es))"
      using p m[of ?daily "fst (range r)" "snd (range r)"] l i
      by (intro exI[of _ ?entries] conjI) assumption+
  qed
  have B: "main parse collect a now = Inr r \<and> json a \<longrightarrow>
      printed r =
        JsonReport (range r)
          (merge_daily (map (\<lambda>c. collect c (fst (range r)) (snd (range r))) (collectors a)))"
  proof (intro impI, elim conjE)
    assume r: "main parse collect a now = Inr r" and j: "json a"
    show "printed r =
        JsonReport (range r)
          (merge_daily (map (\<lambda>c. collect c (fst (range r)) (snd (range r))) (collectors a)))"
      using main_Inr(3)[OF r] j by simp
  qed
  have C: "0 \<le> n \<longrightarrow>
      chart_dates today n = [today - n..today] \<and> int (length (chart_dates today n)) = n + 1"
    by (simp add: chart_dates_def dates_loop_upto)
  have R: "main parse collect a now = Inr r \<longrightarrow> determine_range parse a now = Inr (range r)"
    using main_Inr(1) by blast
  show ?thesis using R A B m[of daily start finish] C by (intro conjI) assumption+
qed

text \<open>
  The run \<^verbatim>\<open>--from 2026-02-01 --to 2026-02-15\<close> prints 15 day entries as text and the
  merged dictionary with \<^verbatim>\<open>--json\<close>; the chart of the last 30 days has 31 dates.
\<close>

theorem text_report_day_axis_dense_witness:
  "determine_range strptime_ymd
     \<lparr>from_date = Some ''2026-02-01'', to_date = Some ''2026-02-15'', date = None,
      days = 14, no_devops = False, no_claude = False, calendar = False, no_git = False,
      json = False\<rparr>
     (739658 * usec_per_day)
   = Inr (739648 * usec_per_day, 739662 * usec_per_day + end_of_day) \<and>
   (case main strptime_ymd (\<lambda>c s f. Map.empty)
           \<lparr>from_date = Some ''2026-02-01'', to_date = Some ''2026-02-15'', date = None,
            days = 14, no_devops = False, no_claude = False, calendar = False, no_git = False,
            json = False\<rparr>
           (739658 * usec_per_day) of
      Inl e \<Rightarrow> False
    | Inr r \<Rightarrow>
        range r = (739648 * usec_per_day, 739662 * usec_per_day + end_of_day) \<and>
        fst (range r) \<le> snd (range r) \<and>
        (\<exists>entries. printed r = TextReport entries \<and>
           map fst entries = [739648..739662] \<and> length entries = 15 \<and>
           timedelta_days (snd (range r)) (fst (range r)) + 1 = 15)) \<and>
   (case main strptime_ymd (\<lambda>c s f. Map.empty)
           \<lparr>from_date = Some ''2026-02-01'', to_date = Some ''2026-02-15'', date = None,
            days = 14, no_devops = False, no_claude = False, calendar = False, no_git = False,
            json = True\<rparr>
           (739658 * usec_per_day) of
      Inl e \<Rightarrow> False
    | Inr r \<Rightarrow>
        printed r = JsonReport (739648 * usec_per_day, 739662 * usec_per_day + end_of_day)
                      (merge_daily [Map.empty, Map.empty, Map.empty])) \<and>
   chart_dates 739658 30 = [739658 - 30..739658] \<and>
   int (length (chart_dates 739658 30)) = 30 + 1"
proof -
  let ?c = "\<lambda>(c :: collector) (s :: int) (f :: int). (Map.empty :: daily)"
  let ?a = "\<lparr>from_date = Some ''2026-02-01'', to_date = Some ''2026-02-15'', date = None,
            days = 14, no_devops = False, no_claude = False, calendar = False, no_git = False,
            json = False\<rparr>"
  let ?b = "\<lparr>from_date = Some ''2026-02-01'', to_date = Some ''2026-02-15'', date = None,
            days = 14, no_devops = False, no_claude = False, calendar = False, no_git = False,
            json = True\<rparr>"
  let ?s = "739648 * usec_per_day" and ?f = "739662 * usec_per_day + end_of_day"
  have da: "determine_range strptime_ymd ?a (739658 * usec_per_day) = Inr (?s, ?f)"
    by code_simp
  have db: "determine_range strptime_ymd ?b (739658 * usec_per_day) = Inr (?s, ?f)"
    by code_simp
  have ca: "collectors ?a = [DevOps, Claude, Git]" by code_simp
  have cb: "collectors ?b = [DevOps, Claude, Git]" by code_simp
  have le: "?s \<le> ?f" by code_simp
  have t: "timedelta_days ?f ?s + 1 = 15" by code_simp
  have ds: "date_of ?s = 739648" by (rule date_of_midnight)
  have df: "date_of ?f = 739662" by (rule date_of_end_of_day)
  obtain ra where ra: "main strptime_ymd ?c ?a (739658 * usec_per_day) = Inr ra"
    and rra: "range ra = (?s, ?f)"
    using da by (simp add: main_def Let_def)
  obtain rb where rb: "main strptime_ymd ?c ?b (739658 * usec_per_day) = Inr rb"
    and rrb: "range rb = (?s, ?f)"
    using db by (simp add: main_def Let_def)
  note Ta = text_report_day_axis_dense[of strptime_ymd ?c ?a "739658 * usec_per_day" ra
      Map.empty 0 0 30 739658]
  note Tb = text_report_day_axis_dense[of strptime_ymd ?c ?b "739658 * usec_per_day" rb
      Map.empty 0 0 30 739658]
  from Ta ra have "determine_range strptime_ymd ?a (739658 * usec_per_day) = Inr (range ra)"
    by blast
  then have D: "determine_range strptime_ymd ?a (739658 * usec_per_day) = Inr (?s, ?f)"
    by (simp only: rra)
  have ja: "\<not> json ?a" by simp
  have jb: "json ?b" by simp
  have lea: "fst (range ra) \<le> snd (range ra)" using le by (simp add: rra)
  from Ta ra ja lea obtain entries where
    e: "printed ra = TextReport entries"
       "map fst entries = [date_of (fst (range ra))..date_of (snd (range ra))]"
       "int (length entries) = timedelta_days (snd (range ra)) (fst (range ra)) + 1"
    by blast
  from e(2) have e2: "map fst entries = [739648..739662]" by (simp only: rra fst_conv snd_conv ds df)
  from e(3) t have e3: "length entries = 15" by (simp only: rra fst_conv snd_conv)
  have ta: "timedelta_days (snd (range ra)) (fst (range ra)) + 1 = 15"
    using t by (simp only: rra fst_conv snd_conv)
  from Tb rb jb have pb: "printed rb = JsonReport (range rb)
      (merge_daily (map (\<lambda>c. ?c c (fst (range rb)) (snd (range rb))) (collectors ?b)))"
    by blast
  then have pb': "printed rb = JsonReport (?s, ?f) (merge_daily [Map.empty, Map.empty, Map.empty])"
    by (simp only: rrb cb) simp
  from Ta have ch: "chart_dates 739658 30 = [739658 - 30..739658] \<and>
      int (length (chart_dates 739658 30)) = 30 + 1"
    by simp
  have A: "(case main strptime_ymd ?c ?a (739658 * usec_per_day) of
      Inl e \<Rightarrow> False
    | Inr r \<Rightarrow>
        range r = (?s, ?f) \<and> fst (range r) \<le> snd (range r) \<and>
        (\<exists>entries. printed r = TextReport entries \<and>
           map fst entries = [739648..739662] \<and> length entries = 15 \<and>
           timedelta_days (snd (range r)) (fst (range r)) + 1 = 15))"
    using rra lea e(1) e2 e3 ta by (simp only: ra sum.case) blast
  have B: "(case main strptime_ymd ?c ?b (739658 * usec_per_day) of
      Inl e \<Rightarrow> False
    | Inr r \<Rightarrow> printed r = JsonReport (?s, ?f) (merge_daily [Map.empty, Map.empty, Map.empty]))"
    using pb' by (simp only: rb sum.case)
  show ?thesis using D A B ch by (intro conjI) (assumption | elim conjE)+
qed

text \<open>
  Claim C9 as stated fails twice. The run \<^verbatim>\<open>--from 2026-02-01 --to 2026-02-15 --json\<close>
  without events covers 15 days and prints a dictionary without a single day. And from
  23:00 of one day to 01:00 of the next, \<^verbatim>\<open>(end - start).days + 1\<close> is 1 while the day
  loop of \<^verbatim>\<open>format_text\<close> lists two days.
\<close>

theorem json_day_axis_sparse:
  "(case main strptime_ymd (\<lambda>c s f. Map.empty)
           \<lparr>from_date = Some ''2026-02-01'', to_date = Some ''2026-02-15'', date = None,
            days = 14, no_devops = False, no_claude = False, calendar = False, no_git = False,
            json = True\<rparr>
           (739658 * usec_per_day) of
      Inl e \<Rightarrow> False
    | Inr r \<Rightarrow>
        fst (range r) \<le> snd (range r) \<and>
        timedelta_days (snd (range r)) (fst (range r)) + 1 = 15 \<and>
        (case printed r of
           TextReport entries \<Rightarrow> False
         | JsonReport rg daily \<Rightarrow> dom daily = {})) \<and>
   739650 * usec_per_day + 82800000000 \<le> 739651 * usec_per_day + 3600000000 \<and>
   timedelta_days (739651 * usec_per_day + 3600000000) (739650 * usec_per_day + 82800000000) + 1
     = 1 \<and>
   map fst (format_text_days Map.empty (739650 * usec_per_day + 82800000000)
              (739651 * usec_per_day + 3600000000)) = [739650, 739651]"
proof -
  let ?c = "\<lambda>(c :: collector) (s :: int) (f :: int). (Map.empty :: daily)"
  let ?b = "\<lparr>from_date = Some ''2026-02-01'', to_date = Some ''2026-02-15'', date = None,
            days = 14, no_devops = False, no_claude = False, calendar = False, no_git = False,
            json = True\<rparr>"
  let ?s = "739648 * usec_per_day" and ?f = "739662 * usec_per_day + end_of_day"
  have db: "determine_range strptime_ymd ?b (739658 * usec_per_day) = Inr (?s, ?f)"
    by code_simp
  have cb: "collectors ?b = [DevOps, Claude, Git]" by code_simp
  have le: "?s \<le> ?f" by code_simp
  have t: "timedelta_days ?f ?s + 1 = 15" by code_simp
  have m: "dom (merge_daily [Map.empty, Map.empty, Map.empty :: daily]) = {}"
    by (simp add: merge_daily_def)
  have A: "(case main strptime_ymd ?c ?b (739658 * usec_per_day) of
      Inl e \<Rightarrow> False
    | Inr r \<Rightarrow>
        fst (range r) \<le> snd (range r) \<and>
        timedelta_days (snd (range r)) (fst (range r)) + 1 = 15 \<and>
        (case printed r of
           TextReport entries \<Rightarrow> False
         | JsonReport rg daily \<Rightarrow> dom daily = {}))"
    using le t m by (simp add: main_def db cb Let_def)
  have B: "739650 * usec_per_day + 82800000000 \<le> 739651 * usec_per_day + 3600000000"
    by code_simp
  have C: "timedelta_days (739651 * usec_per_day + 3600000000)
      (739650 * usec_per_day + 82800000000) + 1 = 1"
    by code_simp
  have d1: "date_of (739650 * usec_per_day + 82800000000) = 739650" by code_simp
  have d2: "date_of (739651 * usec_per_day + 3600000000) = 739651" by code_simp
  have D: "map fst (format_text_days Map.empty (739650 * usec_per_day + 82800000000)
              (739651 * usec_per_day + 3600000000)) = [739650, 739651]"
    unfolding format_text_days_def day_entries_upto d1 d2 by code_simp
  show ?thesis using A B C D by (intro conjI) assumption+
qed

section \<open>Pull request events\<close>

lemma pr_events_completed_iff:
  "(\<exists>k e. (k, e) \<in> set (pr_events project start finish pr) \<and> is_pr_completed e) =
   (\<exists>closed_dt. closedDate pr = Some closed_dt \<and> start \<le> closed_dt \<and> closed_dt \<le> finish \<and>
      Some (date_of closed_dt) \<noteq> map_option date_of (creationDate pr))"
proof
  assume "\<exists>k e. (k, e) \<in> set (pr_events project start finish pr) \<and> is_pr_completed e"
  then show "\<exists>closed_dt. closedDate pr = Some closed_dt \<and> start \<le> closed_dt \<and>
      closed_dt \<le> finish \<and> Some (date_of closed_dt) \<noteq> map_option date_of (creationDate pr)"
    by (cases "closedDate pr"; cases "creationDate pr")
       (auto simp: pr_events_def Let_def split: if_splits)
next
  assume "\<exists>closed_dt. closedDate pr = Some closed_dt \<and> start \<le> closed_dt \<and>
      closed_dt \<le> finish \<and> Some (date_of closed_dt) \<noteq> map_option date_of (creationDate pr)"
  then obtain closed_dt where c: "closedDate pr = Some closed_dt" "start \<le> closed_dt"
    "closed_dt \<le> finish" "Some (date_of closed_dt) \<noteq> map_option date_of (creationDate pr)"
    by blast
  let ?e = "pr_completed project (repository_name pr) (pullRequestId pr) (title pr) (target pr)"
  from c have "(date_of closed_dt, ?e) \<in> set (pr_events project start finish pr)"
    by (simp add: pr_events_def Let_def)
  moreover have "is_pr_completed ?e" by simp
  ultimately show "\<exists>k e. (k, e) \<in> set (pr_events project start finish pr) \<and> is_pr_completed e"
    by blast
qed

lemma pr_events_two_days:
  assumes "creationDate pr = Some created_dt" and "closedDate pr = Some closed_dt"
    and "start \<le> created_dt" and "created_dt \<le> finish"
    and "start \<le> closed_dt" and "closed_dt \<le> finish"
    and "date_of created_dt \<noteq> date_of closed_dt"
  shows "pr_events project start finish pr =
     [(date_of created_dt,
       pr_created project (repository_name pr) (pullRequestId pr) (title pr) (status pr)
         (target pr)),
      (date_of closed_dt,
       pr_completed project (repository_name pr) (pullRequestId pr) (title pr) (target pr))]"
  using assms unfolding pr_events_def Let_def by auto

text \<open>
  Claim C8. For every pull request record, the loop body appends a \<^verbatim>\<open>pr_completed\<close> event
  exactly when the record has a closing timestamp inside the range whose day is not the
  day of its creation timestamp (a record without a creation timestamp has no creation
  day to coincide with). A pull request created on 2026-02-03 and completed on 2026-02-05,
  fetched once in a range that holds both, gives a \<^verbatim>\<open>pr_created\<close> event under 2026-02-03
  and a \<^verbatim>\<open>pr_completed\<close> event under 2026-02-05, and nothing on the day between.
\<close>

theorem pr_completed_iff_other_day:
  "((\<exists>k e. (k, e) \<in> set (pr_events project start finish pr) \<and> is_pr_completed e) =
    (\<exists>closed_dt. closedDate pr = Some closed_dt \<and> start \<le> closed_dt \<and> closed_dt \<le> finish \<and>
       Some (date_of closed_dt) \<noteq> map_option date_of (creationDate pr))) \<and>
   (let pr_feb = \<lparr>pullRequestId = 42, repository_name = ''repo'', title = ''Fix'',
                    status = ''completed'', target = ''main'',
                    creationDate = Some (ymd2ord 2026 2 3 * usec_per_day + 36000000000),
                    closedDate = Some (ymd2ord 2026 2 5 * usec_per_day + 32400000000)\<rparr>;
        daily = get_devops_activity
                  (\<lambda>project st. if project = ''P'' \<and> st = ''completed'' then [pr_feb] else [])
                  [''P''] (ymd2ord 2026 2 1 * usec_per_day)
                  (ymd2ord 2026 2 10 * usec_per_day + end_of_day)
    in daily (ymd2ord 2026 2 3) = Some [pr_created ''P'' ''repo'' 42 ''Fix'' ''completed'' ''main'']
       \<and> daily (ymd2ord 2026 2 5) = Some [pr_completed ''P'' ''repo'' 42 ''Fix'' ''main'']
       \<and> daily (ymd2ord 2026 2 4) = None)"
proof -
  have "(let pr_feb = \<lparr>pullRequestId = 42, repository_name = ''repo'', title = ''Fix'',
                    status = ''completed'', target = ''main'',
                    creationDate = Some (ymd2ord 2026 2 3 * usec_per_day + 36000000000),
                    closedDate = Some (ymd2ord 2026 2 5 * usec_per_day + 32400000000)\<rparr>;
        daily = get_devops_activity
                  (\<lambda>project st. if project = ''P'' \<and> st = ''completed'' then [pr_feb] else [])
                  [''P''] (ymd2ord 2026 2 1 * usec_per_day)
                  (ymd2ord 2026 2 10 * usec_per_day + end_of_day)
    in daily (ymd2ord 2026 2 3) = Some [pr_created ''P'' ''repo'' 42 ''Fix'' ''completed'' ''main'']
       \<and> daily (ymd2ord 2026 2 5) = Some [pr_completed ''P'' ''repo'' 42 ''Fix'' ''main'']
       \<and> daily (ymd2ord 2026 2 4) = None)"
    by code_simp
  with pr_events_completed_iff show ?thesis by blast
qed

theorem pr_completed_iff_other_day_witness:
  "closedDate \<lparr>pullRequestId = 42, repository_name = ''repo'', title = ''Fix'',
                status = ''completed'', target = ''main'',
                creationDate = Some (739650 * usec_per_day + 36000000000),
                closedDate = Some (739652 * usec_per_day + 32400000000)\<rparr>
     = Some (739652 * usec_per_day + 32400000000) \<and>
   Some (date_of (739652 * usec_per_day + 32400000000)) \<noteq>
     map_option date_of (Some (739650 * usec_per_day + 36000000000)) \<and>
   (\<exists>k e. (k, e) \<in> set (pr_events ''P'' (739648 * usec_per_day)
                          (739657 * usec_per_day + end_of_day)
                          \<lparr>pullRequestId = 42, repository_name = ''repo'', title = ''Fix'',
                           status = ''completed'', target = ''main'',
                           creationDate = Some (739650 * usec_per_day + 36000000000),
                           closedDate = Some (739652 * usec_per_day + 32400000000)\<rparr>)
          \<and> is_pr_completed e)"
proof -
  let ?pr = "\<lparr>pullRequestId = 42, repository_name = ''repo'', title = ''Fix'',
                status = ''completed'', target = ''main'',
                creationDate = Some (739650 * usec_per_day + 36000000000),
                closedDate = Some (739652 * usec_per_day + 32400000000)\<rparr>"
  have a: "739648 * usec_per_day \<le> 739652 * usec_per_day + 32400000000" by code_simp
  have b: "739652 * usec_per_day + 32400000000 \<le> 739657 * usec_per_day + end_of_day"
    by code_simp
  have c: "Some (date_of (739652 * usec_per_day + 32400000000)) \<noteq>
           map_option date_of (Some (739650 * usec_per_day + 36000000000))"
    by code_simp
  have "\<exists>closed_dt. closedDate ?pr = Some closed_dt \<and> 739648 * usec_per_day \<le> closed_dt \<and>
          closed_dt \<le> 739657 * usec_per_day + end_of_day \<and>
          Some (date_of closed_dt) \<noteq> map_option date_of (creationDate ?pr)"
    using a b c by simp
  with pr_completed_iff_other_day[of "''P''" "739648 * usec_per_day"
      "739657 * usec_per_day + end_of_day" ?pr]
  have "\<exists>k e. (k, e) \<in> set (pr_events ''P'' (739648 * usec_per_day)
          (739657 * usec_per_day + end_of_day) ?pr) \<and> is_pr_completed e"
    by blast
  with c show ?thesis by simp
qed

section \<open>The date range of a run\<close>

text \<open>
  Claim C4, as amended. \<^verbatim>\<open>main\<close> does not compare the two ends of the range. When
  \<^verbatim>\<open>--from\<close> and \<^verbatim>\<open>--to\<close> both parse and \<^verbatim>\<open>--to\<close> is the earlier day, the run is not
  aborted: the range is taken as given (neither reordered nor rejected), every enabled
  collector runs on it, and the text report has no day entry at all.
\<close>

theorem inverted_range_not_rejected:
  "\<not> truthy (date a) \<and> truthy (from_date a) \<and> truthy (to_date a) \<and>
   parse (arg_text (from_date a)) = Some f \<and> parse (arg_text (to_date a)) = Some t \<and> t < f \<longrightarrow>
   (\<exists>r. main parse collect a now = Inr r \<and>
        range r = (f * usec_per_day, t * usec_per_day + end_of_day) \<and>
        snd (range r) < fst (range r) \<and>
        collected r = collectors a \<and>
        (\<not> json a \<longrightarrow> printed r = TextReport []))"
proof (intro impI, elim conjE)
  assume h: "\<not> truthy (date a)" "truthy (from_date a)" "truthy (to_date a)"
    "parse (arg_text (from_date a)) = Some f" "parse (arg_text (to_date a)) = Some t" "t < f"
  have r: "determine_range parse a now = Inr (f * usec_per_day, t * usec_per_day + end_of_day)"
    using h by (simp add: determine_range_def parse_day_def)
  have "t + 1 \<le> f" using h(6) by simp
  then have "(t + 1) * usec_per_day \<le> f * usec_per_day"
    by (rule mult_right_mono) (simp add: usec_per_day_def)
  moreover have "end_of_day < usec_per_day" by (simp add: usec_per_day_def end_of_day_def)
  ultimately have lt: "t * usec_per_day + end_of_day < f * usec_per_day"
    by (simp add: algebra_simps)
  have "date_of (t * usec_per_day + end_of_day) = t" by (rule date_of_end_of_day)
  with h(6) have "date_of (t * usec_per_day + end_of_day) < date_of (f * usec_per_day)"
    by (simp add: date_of_midnight)
  then have e: "format_text_days daily (f * usec_per_day) (t * usec_per_day + end_of_day) = []" for daily
    unfolding format_text_days_def by (subst day_entries.simps) simp
  show "\<exists>r. main parse collect a now = Inr r \<and>
        range r = (f * usec_per_day, t * usec_per_day + end_of_day) \<and>
        snd (range r) < fst (range r) \<and>
        collected r = collectors a \<and>
        (\<not> json a \<longrightarrow> printed r = TextReport [])"
    using r lt e by (simp add: main_def Let_def)
qed

theorem inverted_range_not_rejected_witness:
  "\<not> truthy None \<and> truthy (Some ''2026-03-05'') \<and> truthy (Some ''2026-03-01'') \<and>
   strptime_ymd ''2026-03-05'' = Some 739680 \<and> strptime_ymd ''2026-03-01'' = Some 739676 \<and>
   (739676 :: int) < 739680 \<and>
   (case main strptime_ymd (\<lambda>c s f. Map.empty)
           \<lparr>from_date = Some ''2026-03-05'', to_date = Some ''2026-03-01'', date = None,
            days = 14, no_devops = True, no_claude = False, calendar = False, no_git = True,
            json = False\<rparr>
           (739690 * usec_per_day) of
      Inl e \<Rightarrow> False
    | Inr r \<Rightarrow> range r = (739680 * usec_per_day, 739676 * usec_per_day + end_of_day) \<and>
              collected r = [Claude] \<and> printed r = TextReport [])"
proof -
  let ?a = "\<lparr>from_date = Some ''2026-03-05'', to_date = Some ''2026-03-01'', date = None,
            days = 14, no_devops = True, no_claude = False, calendar = False, no_git = True,
            json = False\<rparr>"
  have h: "\<not> truthy None" "truthy (Some ''2026-03-05'')" "truthy (Some ''2026-03-01'')"
    "strptime_ymd ''2026-03-05'' = Some 739680" "strptime_ymd ''2026-03-01'' = Some 739676"
    by code_simp+
  have c: "collectors ?a = [Claude]" by code_simp
  from h have "\<not> truthy (date ?a) \<and> truthy (from_date ?a) \<and> truthy (to_date ?a) \<and>
      strptime_ymd (arg_text (from_date ?a)) = Some 739680 \<and>
      strptime_ymd (arg_text (to_date ?a)) = Some 739676 \<and> (739676 :: int) < 739680"
    by (simp add: arg_text_def)
  with inverted_range_not_rejected[of ?a strptime_ymd 739680 739676 "\<lambda>c s f. Map.empty"
      "739690 * usec_per_day"]
  obtain r where "main strptime_ymd (\<lambda>c s f. Map.empty) ?a (739690 * usec_per_day) = Inr r"
    "range r = (739680 * usec_per_day, 739676 * usec_per_day + end_of_day)"
    "collected r = collectors ?a" "printed r = TextReport []"
    by auto
  with h c show ?thesis by simp
qed

text \<open>
  Claim C4 as stated fails: with \<^verbatim>\<open>--from 2026-02-10 --to 2026-02-01\<close> the run returns
  normally, its three default collectors have run, and the day axis printed is empty.
\<close>

theorem inverted_range_runs_collectors:
  "main strptime_ymd (\<lambda>c s f. Map.empty)
     \<lparr>from_date = Some ''2026-02-10'', to_date = Some ''2026-02-01'', date = None, days = 14,
      no_devops = False, no_claude = False, calendar = False, no_git = False, json = False\<rparr>
     (739658 * usec_per_day)
   = Inr \<lparr>range = (739657 * usec_per_day, 739648 * usec_per_day + end_of_day),
          collected = [DevOps, Claude, Git], printed = TextReport []\<rparr>"
proof -
  let ?a = "\<lparr>from_date = Some ''2026-02-10'', to_date = Some ''2026-02-01'', date = None,
      days = 14, no_devops = False, no_claude = False, calendar = False, no_git = False,
      json = False\<rparr>"
  have r: "determine_range strptime_ymd ?a (739658 * usec_per_day)
           = Inr (739657 * usec_per_day, 739648 * usec_per_day + end_of_day)"
    by code_simp
  have c: "collectors ?a = [DevOps, Claude, Git]" by code_simp
  have e: "format_text_days daily (739657 * usec_per_day) (739648 * usec_per_day + end_of_day) = []"
    for daily
    unfolding format_text_days_def date_of_midnight date_of_end_of_day
    by (subst day_entries.simps) simp
  show ?thesis by (simp add: main_def Let_def r c e)
qed

section \<open>The consumption summary\<close>

lemma max_one_nonzero: "(of_int (max 1 n) :: rat) \<noteq> 0"
  by (metis max.cobounded1 not_one_le_zero of_int_eq_0_iff)

lemma summarise_Inr: "summarise rows g ini = Inr (summary_row rows g ini)"
  using max_one_nonzero[of "person_prs rows ini"]
  by (simp add: summarise_def Let_def py_truediv_def)

lemma summaries_loop_Inr:
  "summaries_loop rows g inis = Inr (map (summary_row rows g) inis)"
  by (induction inis) (simp_all add: summarise_Inr)

lemma build_consumption_chart_eq:
  assumes "usage_buckets \<noteq> []"
  shows "build_consumption_chart round2 dates prs usage_buckets people =
    Inr (Some \<lparr>cost_all =
                 map (\<lambda>d. round2 (fst (daily_costs (build_key_to_person people)
                                          usage_buckets) d)) dates,
               pr_counts_all = map (fst (daily_prs people prs)) dates,
               grand_total = chart_total round2 people usage_buckets dates,
               person_summaries =
                 sort_key (\<lambda>s. - s_cost s)
                   (map (summary_row (chart_rows round2 people usage_buckets prs dates)
                           (chart_total round2 people usage_buckets dates))
                      (sort (map fst (chart_rows round2 people usage_buckets prs dates)))),
               total_cost_per_pr =
                 chart_total round2 people usage_buckets dates
                 / of_int (max 1 (int (length prs)))\<rparr>)"
  using assms max_one_nonzero[of "int (length prs)"]
  by (simp add: build_consumption_chart_def Let_def summaries_loop_Inr py_truediv_def
      case_prod_beta)

lemma chart_fields:
  assumes "build_consumption_chart round2 dates prs usage_buckets people = Inr (Some c)"
  shows "grand_total c = chart_total round2 people usage_buckets dates"
    and "person_summaries c =
           sort_key (\<lambda>s. - s_cost s)
             (map (summary_row (chart_rows round2 people usage_buckets prs dates)
                     (chart_total round2 people usage_buckets dates))
                (sort (map fst (chart_rows round2 people usage_buckets prs dates))))"
    and "total_cost_per_pr c =
           chart_total round2 people usage_buckets dates / of_int (max 1 (int (length prs)))"
proof -
  have ne: "usage_buckets \<noteq> []"
    using assms by (auto simp: build_consumption_chart_def)
  from build_consumption_chart_eq[OF ne, of round2 dates prs people] assms
  have c: "\<lparr>cost_all =
                 map (\<lambda>d. round2 (fst (daily_costs (build_key_to_person people)
                                          usage_buckets) d)) dates,
               pr_counts_all = map (fst (daily_prs people prs)) dates,
               grand_total = chart_total round2 people usage_buckets dates,
               person_summaries =
                 sort_key (\<lambda>s. - s_cost s)
                   (map (summary_row (chart_rows round2 people usage_buckets prs dates)
                           (chart_total round2 people usage_buckets dates))
                      (sort (map fst (chart_rows round2 people usage_buckets prs dates)))),
               total_cost_per_pr =
                 chart_total round2 people usage_buckets dates
                 / of_int (max 1 (int (length prs)))\<rparr> = c"
    by simp
  show "grand_total c = chart_total round2 people usage_buckets dates"
    by (subst c[symmetric]) simp
  show "person_summaries c =
           sort_key (\<lambda>s. - s_cost s)
             (map (summary_row (chart_rows round2 people usage_buckets prs dates)
                     (chart_total round2 people usage_buckets dates))
                (sort (map fst (chart_rows round2 people usage_buckets prs dates))))"
    by (subst c[symmetric]) simp
  show "total_cost_per_pr c =
           chart_total round2 people usage_buckets dates / of_int (max 1 (int (length prs)))"
    by (subst c[symmetric]) simp
qed

lemma fold_invariant:
  assumes "I acc" and "\<And>x a. x \<in> set xs \<Longrightarrow> I a \<Longrightarrow> I (f x a)"
  shows "I (fold f xs acc)"
  using assms by (induction xs arbitrary: acc) simp_all

lemma sum_list_one_more:
  fixes g :: "'a \<Rightarrow> rat"
  assumes "distinct P" and "q \<in> set P"
  shows "(\<Sum>p\<leftarrow>P. if p = q then g p + c else g p) = (\<Sum>p\<leftarrow>P. g p) + c"
  using assms
proof (induction P)
  case Nil
  then show ?case by simp
next
  case (Cons a P)
  show ?case
  proof (cases "a = q")
    case True
    with Cons.prems have "q \<notin> set P" by simp
    then have "(\<Sum>p\<leftarrow>P. if p = q then g p + c else g p) = (\<Sum>p\<leftarrow>P. g p)"
      by (intro arg_cong[where f = sum_list] map_cong) auto
    with True show ?thesis by simp
  next
    case False
    with Cons.prems have "distinct P" "q \<in> set P" by auto
    from Cons.IH[OF this] False show ?thesis by simp
  qed
qed

lemma add_result_conserved:
  assumes "distinct P" and "0 < calc_cost r \<Longrightarrow> person_of k2p r \<in> set P"
    and "conserved P acc"
  shows "conserved P (add_result k2p date_str r acc)"
proof (cases "calc_cost r \<le> 0")
  case True
  with assms(3) show ?thesis by (simp add: add_result_def case_prod_beta)
next
  case False
  then have q: "person_of k2p r \<in> set P" using assms(2) by simp
  obtain a pd where acc: "acc = (a, pd)" by (cases acc)
  let ?q = "person_of k2p r"
  let ?c = "calc_cost r"
  have e: "add_result k2p date_str r (a, pd) =
      (a(date_str := a date_str + ?c), pd(?q := (pd ?q)(date_str := pd ?q date_str + ?c)))"
    using False by (simp add: add_result_def Let_def)
  from assms(3) have inv: "a d = (\<Sum>p\<leftarrow>P. pd p d)" for d
    by (simp add: conserved_def acc)
  have "fst (add_result k2p date_str r (a, pd)) d =
        (\<Sum>p\<leftarrow>P. snd (add_result k2p date_str r (a, pd)) p d)" for d
  proof (cases "d = date_str")
    case True
    have "(\<Sum>p\<leftarrow>P. snd (add_result k2p date_str r (a, pd)) p d) =
          (\<Sum>p\<leftarrow>P. if p = ?q then pd p d + ?c else pd p d)"
      unfolding e using True by (intro arg_cong[where f = sum_list] map_cong) auto
    also have "\<dots> = (\<Sum>p\<leftarrow>P. pd p d) + ?c"
      using assms(1) q by (rule sum_list_one_more)
    also have "\<dots> = fst (add_result k2p date_str r (a, pd)) d"
      unfolding e using True by (simp add: inv)
    finally show ?thesis by simp
  next
    case False
    have "(\<Sum>p\<leftarrow>P. snd (add_result k2p date_str r (a, pd)) p d) = (\<Sum>p\<leftarrow>P. pd p d)"
      unfolding e using False by (intro arg_cong[where f = sum_list] map_cong) auto
    also have "\<dots> = fst (add_result k2p date_str r (a, pd)) d"
      unfolding e using False by (simp add: inv)
    finally show ?thesis by simp
  qed
  then show ?thesis unfolding conserved_def acc by blast
qed

lemma daily_costs_conserved:
  assumes "distinct P"
    and "\<And>b r. b \<in> set usage_buckets \<Longrightarrow> r \<in> set (results b) \<Longrightarrow> 0 < calc_cost r \<Longrightarrow>
           person_of k2p r \<in> set P"
  shows "conserved P (daily_costs k2p usage_buckets)"
  unfolding daily_costs_def
proof (rule fold_invariant)
  show "conserved P (\<lambda>d. 0, \<lambda>p d. 0)" by (simp add: conserved_def)
next
  fix b acc
  assume b: "b \<in> set usage_buckets" and acc: "conserved P acc"
  show "conserved P (add_bucket k2p b acc)"
    unfolding add_bucket_def Let_def
  proof (rule fold_invariant)
    show "conserved P acc" by (rule acc)
  next
    fix r a
    assume "r \<in> set (results b)" and "conserved P a"
    with assms b show "conserved P (add_result k2p
        (take 10 (case starting_at b of None \<Rightarrow> [] | Some s \<Rightarrow> s)) r a)"
      by (intro add_result_conserved) auto
  qed
qed

lemma add_result_nonneg: "nonneg_acc acc \<Longrightarrow> nonneg_acc (add_result k2p date_str r acc)"
  by (cases acc) (auto simp: nonneg_acc_def add_result_def Let_def)

lemma daily_costs_nonneg: "nonneg_acc (daily_costs k2p usage_buckets)"
  unfolding daily_costs_def
proof (rule fold_invariant)
  show "nonneg_acc (\<lambda>d. 0, \<lambda>p d. 0)" by (simp add: nonneg_acc_def)
next
  fix b acc
  assume acc: "nonneg_acc acc"
  show "nonneg_acc (add_bucket k2p b acc)"
    unfolding add_bucket_def Let_def
  proof (rule fold_invariant)
    show "nonneg_acc acc" by (rule acc)
  next
    fix r a
    assume "nonneg_acc a"
    then show "nonneg_acc (add_result k2p
        (take 10 (case starting_at b of None \<Rightarrow> [] | Some s \<Rightarrow> s)) r a)"
      by (rule add_result_nonneg)
  qed
qed

lemma sum_list_insort_key:
  fixes h :: "'a \<Rightarrow> rat"
  shows "sum_list (map h (insort_key k x xs)) = h x + sum_list (map h xs)"
  by (induction xs) simp_all

lemma sum_list_sort_key:
  fixes h :: "'a \<Rightarrow> rat"
  shows "sum_list (map h (sort_key k xs)) = sum_list (map h xs)"
  by (induction xs) (simp_all add: sum_list_insort_key)

lemma sum_list_swap:
  fixes f :: "'a \<Rightarrow> 'b \<Rightarrow> rat"
  shows "(\<Sum>p\<leftarrow>P. \<Sum>d\<leftarrow>D. f p d) = (\<Sum>d\<leftarrow>D. \<Sum>p\<leftarrow>P. f p d)"
  by (induction P) (simp_all add: sum_list_addf)

lemma sum_list_scale:
  fixes f :: "'a \<Rightarrow> rat"
  shows "(\<Sum>x\<leftarrow>xs. f x / g * 100) = (\<Sum>x\<leftarrow>xs. f x) / g * 100"
  by (induction xs) (simp_all add: add_divide_distrib distrib_right)

lemma rows_keys_subset:
  "set (map fst (persons_rows round2 people pd pr dates)) \<subseteq> set (map fst people)"
  unfolding persons_rows_def by (force simp: case_prod_beta)

lemma rows_keys_distinct:
  assumes "distinct (map fst people)"
  shows "distinct (map fst (persons_rows round2 people pd pr dates))"
proof -
  have "distinct (map fst (sort_key fst people))"
    using assms by (simp add: distinct_map)
  then have "distinct (map fst (map (\<lambda>(initials, info).
               (initials,
                map (\<lambda>d. round2 (pd initials d)) dates,
                map (\<lambda>d. pr initials d) dates)) (sort_key fst people)))"
    by (simp add: case_prod_beta comp_def)
  then show ?thesis
    unfolding persons_rows_def by (rule distinct_map_filter)
qed

lemma person_cost_of_row:
  assumes "distinct (map fst rows)" and "row \<in> set rows"
  shows "person_cost rows (fst row) = sum_list (fst (snd row))"
proof -
  have "map_of rows (fst row) = Some (snd row)"
    using assms by (intro map_of_is_SomeI) simp_all
  then show ?thesis by (simp add: person_cost_def case_prod_beta)
qed

lemma person_cost_of_key:
  assumes "distinct (map fst people)" and "ini \<in> set (map fst (persons_rows round2 people pd pr dates))"
  shows "person_cost (persons_rows round2 people pd pr dates) ini = (\<Sum>d\<leftarrow>dates. round2 (pd ini d))"
proof -
  let ?rows = "persons_rows round2 people pd pr dates"
  from assms(2) obtain row where row: "row \<in> set ?rows" "fst row = ini" by auto
  then have "fst (snd row) = map (\<lambda>d. round2 (pd ini d)) dates"
    unfolding persons_rows_def by (auto simp: case_prod_beta)
  with person_cost_of_row[OF rows_keys_distinct[OF assms(1)] row(1)] row(2)
  show ?thesis by simp
qed

lemma rows_cost_sum:
  assumes "distinct (map fst people)"
    and "\<And>p d. p \<in> set (map fst people) \<Longrightarrow> d \<in> set dates \<Longrightarrow> 0 \<le> round2 (pd p d)"
  shows "(\<Sum>ini\<leftarrow>map fst (persons_rows round2 people pd pr dates).
            person_cost (persons_rows round2 people pd pr dates) ini)
         = (\<Sum>p\<leftarrow>map fst people. \<Sum>d\<leftarrow>dates. round2 (pd p d))"
proof -
  let ?rows = "persons_rows round2 people pd pr dates"
  let ?mk = "\<lambda>(initials, info).
               (initials,
                map (\<lambda>d. round2 (pd initials d)) dates,
                map (\<lambda>d. pr initials d) dates)"
  let ?all = "map ?mk (sort_key fst people)"
  let ?keep = "\<lambda>(initials, cost_arr, pr_arr). 0 < sum_list cost_arr \<or> 0 < sum_list (pr_arr :: int list)"
  have d: "distinct (map fst ?rows)" using assms(1) by (rule rows_keys_distinct)
  have "(\<Sum>ini\<leftarrow>map fst ?rows. person_cost ?rows ini)
        = (\<Sum>row\<leftarrow>?rows. person_cost ?rows (fst row))"
    by (simp add: comp_def)
  also have "\<dots> = (\<Sum>row\<leftarrow>?rows. sum_list (fst (snd row)))"
    using person_cost_of_row[OF d] by (intro arg_cong[where f = sum_list] map_cong) auto
  also have "\<dots> = (\<Sum>row\<leftarrow>filter ?keep ?all. sum_list (fst (snd row)))"
    by (simp add: persons_rows_def)
  also have "\<dots> = (\<Sum>row\<leftarrow>?all. sum_list (fst (snd row)))"
  proof (rule sum_list_map_filter)
    fix row
    assume "row \<in> set ?all" and nk: "\<not> ?keep row"
    then obtain x where x: "x \<in> set people" "row = ?mk x" by auto
    then have ca: "fst (snd row) = map (\<lambda>d. round2 (pd (fst x) d)) dates"
      by (simp add: case_prod_beta)
    have "fst x \<in> set (map fst people)" using x(1) by simp
    then have "0 \<le> sum_list (fst (snd row))"
      unfolding ca using assms(2) by (intro sum_list_nonneg) auto
    moreover from nk have "\<not> 0 < sum_list (fst (snd row))"
      by (auto simp: case_prod_beta)
    ultimately show "sum_list (fst (snd row)) = 0" by simp
  qed
  also have "\<dots> = (\<Sum>x\<leftarrow>sort_key fst people. \<Sum>d\<leftarrow>dates. round2 (pd (fst x) d))"
    by (simp add: comp_def case_prod_beta)
  also have "\<dots> = (\<Sum>x\<leftarrow>people. \<Sum>d\<leftarrow>dates. round2 (pd (fst x) d))"
    by (rule sum_list_sort_key)
  also have "\<dots> = (\<Sum>p\<leftarrow>map fst people. \<Sum>d\<leftarrow>dates. round2 (pd p d))"
    by (simp add: comp_def)
  finally show ?thesis .
qed

lemma listed_pct_sum:
  assumes c: "build_consumption_chart round2 dates prs usage_buckets people = Inr (Some c)"
  shows "sum_list (map s_pct (person_summaries c)) =
         (if 0 < grand_total c
          then sum_list (map s_cost (person_summaries c)) / grand_total c * 100 else 0)"
proof -
  let ?rows = "chart_rows round2 people usage_buckets prs dates"
  let ?G = "chart_total round2 people usage_buckets dates"
  let ?L = "sort (map fst ?rows)"
  have G: "grand_total c = ?G" using c by (rule chart_fields(1))
  have p: "sum_list (map s_pct (person_summaries c))
           = (\<Sum>ini\<leftarrow>?L. if 0 < ?G then person_cost ?rows ini / ?G * 100 else 0)"
    unfolding chart_fields(2)[OF c] by (simp add: sum_list_sort_key comp_def)
  have k: "sum_list (map s_cost (person_summaries c)) = (\<Sum>ini\<leftarrow>?L. person_cost ?rows ini)"
    unfolding chart_fields(2)[OF c] by (simp add: sum_list_sort_key comp_def)
  show ?thesis
  proof (cases "0 < ?G")
    case True
    then have "(\<Sum>ini\<leftarrow>?L. if 0 < ?G then person_cost ?rows ini / ?G * 100 else 0)
               = (\<Sum>ini\<leftarrow>?L. person_cost ?rows ini / ?G * 100)"
      by (simp only: if_True)
    also have "\<dots> = (\<Sum>ini\<leftarrow>?L. person_cost ?rows ini) / ?G * 100"
      by (rule sum_list_scale)
    finally show ?thesis unfolding p k G using True by (simp only: if_True)
  next
    case False
    then show ?thesis unfolding p G by simp
  qed
qed

lemma listed_initials:
  assumes c: "build_consumption_chart round2 dates prs usage_buckets people = Inr (Some c)"
  shows "set (map s_initials (person_summaries c)) =
         set (map fst (chart_rows round2 people usage_buckets prs dates))"
proof -
  have m: "map s_initials (map (summary_row R g) L) = L" for R g L
    by (induction L) simp_all
  have "set (map s_initials (person_summaries c)) =
        set (map s_initials (map (summary_row (chart_rows round2 people usage_buckets prs dates)
               (chart_total round2 people usage_buckets dates))
             (sort (map fst (chart_rows round2 people usage_buckets prs dates)))))"
    unfolding chart_fields(2)[OF c] by (simp only: set_map set_sort)
  then show ?thesis unfolding m by (simp only: set_sort)
qed

lemma listed_cost:
  assumes c: "build_consumption_chart round2 dates prs usage_buckets people = Inr (Some c)"
    and s: "s \<in> set (person_summaries c)"
  shows "s_cost s = person_cost (chart_rows round2 people usage_buckets prs dates) (s_initials s)"
proof -
  from s obtain ini where
    "s = summary_row (chart_rows round2 people usage_buckets prs dates)
           (chart_total round2 people usage_buckets dates) ini"
    unfolding chart_fields(2)[OF c] by auto
  then show ?thesis by simp
qed

lemma listed_cost_sum:
  assumes c: "build_consumption_chart round2 dates prs usage_buckets people = Inr (Some c)"
  shows "sum_list (map s_cost (person_summaries c)) =
         (\<Sum>ini\<leftarrow>map fst (chart_rows round2 people usage_buckets prs dates).
            person_cost (chart_rows round2 people usage_buckets prs dates) ini)"
  unfolding chart_fields(2)[OF c] by (simp add: sum_list_sort_key comp_def)

text \<open>
  Claim C1, as amended. The per-user breakdown has a row only for a person of the people
  mapping: the \<^verbatim>\<open>_other\<close> bucket, which receives the unattributed usage, has no row
  unless a person of the mapping has that name. The grand total is the sum of the rounded daily totals, and, the mapping having
  no key twice, the cost of a row is the sum of the rounded daily costs of its person. The
  percentages of the rows sum to 100 times the listed costs over the grand total, and to 0
  when the grand total is not positive. They sum to 100 when the grand total is positive,
  every usage with a positive cost is attributed to a person of the mapping, and rounding
  to cents changes none of the daily amounts.
\<close>

theorem cost_shares_of_listed_persons:
  "build_consumption_chart round2 dates prs usage_buckets people = Inr (Some c) \<longrightarrow>
   set (map s_initials (person_summaries c)) \<subseteq> set (map fst people) \<and>
   grand_total c =
     (\<Sum>d\<leftarrow>dates. round2 (fst (daily_costs (build_key_to_person people) usage_buckets) d)) \<and>
   sum_list (map s_pct (person_summaries c)) =
     (if 0 < grand_total c
      then sum_list (map s_cost (person_summaries c)) / grand_total c * 100 else 0) \<and>
   (distinct (map fst people) \<longrightarrow>
      (\<forall>s\<in>set (person_summaries c).
         s_cost s =
           (\<Sum>d\<leftarrow>dates. round2 (snd (daily_costs (build_key_to_person people) usage_buckets)
                                   (s_initials s) d)))) \<and>
   (distinct (map fst people) \<and> 0 < grand_total c \<and>
    (\<forall>b\<in>set usage_buckets. \<forall>r\<in>set (results b).
       0 < calc_cost r \<longrightarrow>
       person_of (build_key_to_person people) r \<in> set (map fst people)) \<and>
    (\<forall>d\<in>set dates.
       round2 (fst (daily_costs (build_key_to_person people) usage_buckets) d)
         = fst (daily_costs (build_key_to_person people) usage_buckets) d \<and>
       (\<forall>p\<in>set (map fst people).
          round2 (snd (daily_costs (build_key_to_person people) usage_buckets) p d)
            = snd (daily_costs (build_key_to_person people) usage_buckets) p d)) \<longrightarrow>
    sum_list (map s_pct (person_summaries c)) = 100)"
proof
  assume c: "build_consumption_chart round2 dates prs usage_buckets people = Inr (Some c)"
  let ?k = "build_key_to_person people"
  let ?ad = "fst (daily_costs ?k usage_buckets)"
  let ?pd = "snd (daily_costs ?k usage_buckets)"
  let ?P = "map fst people"
  let ?rows = "chart_rows round2 people usage_buckets prs dates"
  have A: "set (map s_initials (person_summaries c)) \<subseteq> set ?P"
    unfolding listed_initials[OF c] by (rule rows_keys_subset)
  have B: "grand_total c = (\<Sum>d\<leftarrow>dates. round2 (?ad d))"
    using c by (rule chart_fields(1))
  have C: "sum_list (map s_pct (person_summaries c)) =
     (if 0 < grand_total c
      then sum_list (map s_cost (person_summaries c)) / grand_total c * 100 else 0)"
    using c by (rule listed_pct_sum)
  have D: "s_cost s = (\<Sum>d\<leftarrow>dates. round2 (?pd (s_initials s) d))"
    if d: "distinct ?P" and s: "s \<in> set (person_summaries c)" for s
  proof -
    have "s_initials s \<in> set (map fst ?rows)"
      using s listed_initials[OF c] by auto
    from person_cost_of_key[OF d this] listed_cost[OF c s] show ?thesis by simp
  qed
  have E: "sum_list (map s_pct (person_summaries c)) = 100"
    if d: "distinct ?P" and g: "0 < grand_total c"
      and att: "\<forall>b\<in>set usage_buckets. \<forall>r\<in>set (results b).
                  0 < calc_cost r \<longrightarrow> person_of ?k r \<in> set ?P"
      and rnd: "\<forall>d\<in>set dates. round2 (?ad d) = ?ad d \<and>
                  (\<forall>p\<in>set ?P. round2 (?pd p d) = ?pd p d)"
  proof -
    have "conserved ?P (daily_costs ?k usage_buckets)"
      using d att by (intro daily_costs_conserved) blast+
    then have cons: "?ad d = (\<Sum>p\<leftarrow>?P. ?pd p d)" for d
      by (simp add: conserved_def)
    have nn: "0 \<le> ?pd p d" for p d
      using daily_costs_nonneg[of ?k usage_buckets] by (simp add: nonneg_acc_def)
    have rn: "0 \<le> round2 (?pd p d)" if "p \<in> set ?P" "d \<in> set dates" for p d
    proof -
      from rnd that have "round2 (?pd p d) = ?pd p d" by blast
      with nn[of p d] show ?thesis by (simp only:)
    qed
    have "sum_list (map s_cost (person_summaries c)) = (\<Sum>p\<leftarrow>?P. \<Sum>d\<leftarrow>dates. round2 (?pd p d))"
      unfolding listed_cost_sum[OF c] using d rn by (rule rows_cost_sum)
    also have "\<dots> = (\<Sum>d\<leftarrow>dates. \<Sum>p\<leftarrow>?P. round2 (?pd p d))"
      by (rule sum_list_swap)
    also have "\<dots> = (\<Sum>d\<leftarrow>dates. round2 (?ad d))"
    proof (intro arg_cong[where f = sum_list] map_cong refl)
      fix d
      assume dd: "d \<in> set dates"
      have "(\<Sum>p\<leftarrow>?P. round2 (?pd p d)) = (\<Sum>p\<leftarrow>?P. ?pd p d)"
        using rnd dd by (intro arg_cong[where f = sum_list] map_cong refl) blast
      also have "\<dots> = round2 (?ad d)" using rnd dd cons by simp
      finally show "(\<Sum>p\<leftarrow>?P. round2 (?pd p d)) = round2 (?ad d)" .
    qed
    also have "\<dots> = grand_total c" using B by simp
    finally have "sum_list (map s_cost (person_summaries c)) = grand_total c" .
    with C g show ?thesis by simp
  qed
  from A B C D E
  show "set (map s_initials (person_summaries c)) \<subseteq> set (map fst people) \<and>
   grand_total c =
     (\<Sum>d\<leftarrow>dates. round2 (fst (daily_costs (build_key_to_person people) usage_buckets) d)) \<and>
   sum_list (map s_pct (person_summaries c)) =
     (if 0 < grand_total c
      then sum_list (map s_cost (person_summaries c)) / grand_total c * 100 else 0) \<and>
   (distinct (map fst people) \<longrightarrow>
      (\<forall>s\<in>set (person_summaries c).
         s_cost s =
           (\<Sum>d\<leftarrow>dates. round2 (snd (daily_costs (build_key_to_person people) usage_buckets)
                                   (s_initials s) d)))) \<and>
   (distinct (map fst people) \<and> 0 < grand_total c \<and>
    (\<forall>b\<in>set usage_buckets. \<forall>r\<in>set (results b).
       0 < calc_cost r \<longrightarrow>
       person_of (build_key_to_person people) r \<in> set (map fst people)) \<and>
    (\<forall>d\<in>set dates.
       round2 (fst (daily_costs (build_key_to_person people) usage_buckets) d)
         = fst (daily_costs (build_key_to_person people) usage_buckets) d \<and>
       (\<forall>p\<in>set (map fst people).
          round2 (snd (daily_costs (build_key_to_person people) usage_buckets) p d)
            = snd (daily_costs (build_key_to_person people) usage_buckets) p d)) \<longrightarrow>
    sum_list (map s_pct (person_summaries c)) = 100)"
    by blast
qed

text \<open>
  Two persons with 3.00 and 1.00 dollars on one day: the shares are 75 and 25.
\<close>

theorem cost_shares_of_listed_persons_witness:
  "build_consumption_chart py_round2 [''2026-02-03''] []
     [\<lparr>starting_at = Some ''2026-02-03T00:00:00Z'',
       results =
         [\<lparr>api_key_id = Some ''k1'', model = Some ''claude-sonnet-4-x'',
           uncached_input_tokens = Some 1000000, cache_read_input_tokens = None,
           output_tokens = None, cache_creation = None\<rparr>,
          \<lparr>api_key_id = Some ''k2'', model = Some ''claude-haiku-4-5'',
           uncached_input_tokens = Some 1250000, cache_read_input_tokens = None,
           output_tokens = None, cache_creation = None\<rparr>]\<rparr>]
     [(''ab'', \<lparr>display_name = ''AB'', key_ids = [''k1''], email = None\<rparr>),
      (''cd'', \<lparr>display_name = ''CD'', key_ids = [''k2''], email = None\<rparr>)]
   = Inr (Some \<lparr>cost_all = [4], pr_counts_all = [0], grand_total = 4,
                person_summaries =
                  [\<lparr>s_initials = ''ab'', s_cost = 3, s_prs = 0, s_pct = 75, s_cost_per_pr = 3\<rparr>,
                   \<lparr>s_initials = ''cd'', s_cost = 1, s_prs = 0, s_pct = 25, s_cost_per_pr = 1\<rparr>],
                total_cost_per_pr = 4\<rparr>) \<and>
   distinct (map fst [(''ab'', \<lparr>display_name = ''AB'', key_ids = [''k1''], email = None\<rparr>),
                      (''cd'', \<lparr>display_name = ''CD'', key_ids = [''k2''], email = None\<rparr>)]) \<and>
   sum_list (map s_pct
        [\<lparr>s_initials = ''ab'', s_cost = 3, s_prs = 0, s_pct = 75, s_cost_per_pr = 3\<rparr>,
         \<lparr>s_initials = ''cd'', s_cost = 1, s_prs = 0, s_pct = 25, s_cost_per_pr = 1\<rparr>])
     = (100 :: rat)"
proof -
  let ?people = "[(''ab'', \<lparr>display_name = ''AB'', key_ids = [''k1''], email = None\<rparr>),
                  (''cd'', \<lparr>display_name = ''CD'', key_ids = [''k2''], email = None\<rparr>)]"
  let ?usage = "[\<lparr>starting_at = Some ''2026-02-03T00:00:00Z'',
       results =
         [\<lparr>api_key_id = Some ''k1'', model = Some ''claude-sonnet-4-x'',
           uncached_input_tokens = Some 1000000, cache_read_input_tokens = None,
           output_tokens = None, cache_creation = None\<rparr>,
          \<lparr>api_key_id = Some ''k2'', model = Some ''claude-haiku-4-5'',
           uncached_input_tokens = Some 1250000, cache_read_input_tokens = None,
           output_tokens = None, cache_creation = None\<rparr>]\<rparr>]"
  let ?c = "\<lparr>cost_all = [4], pr_counts_all = [0], grand_total = 4,
                person_summaries =
                  [\<lparr>s_initials = ''ab'', s_cost = 3, s_prs = 0, s_pct = 75, s_cost_per_pr = 3\<rparr>,
                   \<lparr>s_initials = ''cd'', s_cost = 1, s_prs = 0, s_pct = 25, s_cost_per_pr = 1\<rparr>],
                total_cost_per_pr = 4\<rparr>"
  have e: "build_consumption_chart py_round2 [''2026-02-03''] [] ?usage ?people = Inr (Some ?c)"
    by code_simp
  have d: "distinct (map fst ?people)" by code_simp
  have g: "0 < grand_total ?c" by simp
  have att: "\<forall>b\<in>set ?usage. \<forall>r\<in>set (results b).
       0 < calc_cost r \<longrightarrow> person_of (build_key_to_person ?people) r \<in> set (map fst ?people)"
    by code_simp
  have rnd: "\<forall>d\<in>set [''2026-02-03''].
       py_round2 (fst (daily_costs (build_key_to_person ?people) ?usage) d)
         = fst (daily_costs (build_key_to_person ?people) ?usage) d \<and>
       (\<forall>p\<in>set (map fst ?people).
          py_round2 (snd (daily_costs (build_key_to_person ?people) ?usage) p d)
            = snd (daily_costs (build_key_to_person ?people) ?usage) p d)"
    by code_simp
  from cost_shares_of_listed_persons[of py_round2 "[''2026-02-03'']" "[]" ?usage ?people ?c]
    e d g att rnd
  have "sum_list (map s_pct (person_summaries ?c)) = 100" by blast
  with e d show ?thesis by simp
qed

text \<open>
  Claim C1 as stated fails in three ways. Half of the usage of the first batch carries a
  key that no person owns: it is counted in the grand total and accumulated under
  \<^verbatim>\<open>_other\<close>, but the breakdown lists only the person of the mapping, with 50 percent. In
  the second batch three persons have 0.0064 dollars each: each cost is rounded to 0.01,
  the total 0.0192 to 0.02, and the three shares are 50 percent, 150 together. In the third
  batch the only usage record costs nothing and the person has a pull request: the one row
  has 0 percent.
\<close>

theorem cost_shares_miss_100:
  "build_consumption_chart py_round2 [''2026-02-03''] []
     [\<lparr>starting_at = Some ''2026-02-03T00:00:00Z'',
       results =
         [\<lparr>api_key_id = Some ''k1'', model = Some ''claude-sonnet-4-x'',
           uncached_input_tokens = Some 1000000, cache_read_input_tokens = None,
           output_tokens = None, cache_creation = None\<rparr>,
          \<lparr>api_key_id = Some ''k9'', model = Some ''claude-sonnet-4-x'',
           uncached_input_tokens = Some 1000000, cache_read_input_tokens = None,
           output_tokens = None, cache_creation = None\<rparr>]\<rparr>]
     [(''ab'', \<lparr>display_name = ''AB'', key_ids = [''k1''], email = None\<rparr>)]
   = Inr (Some \<lparr>cost_all = [6], pr_counts_all = [0], grand_total = 6,
                person_summaries =
                  [\<lparr>s_initials = ''ab'', s_cost = 3, s_prs = 0, s_pct = 50, s_cost_per_pr = 3\<rparr>],
                total_cost_per_pr = 6\<rparr>) \<and>
   build_consumption_chart py_round2 [''2026-02-03''] []
     [\<lparr>starting_at = Some ''2026-02-03T00:00:00Z'',
       results =
         [\<lparr>api_key_id = Some ''k1'', model = Some ''claude-haiku-4-5'',
           uncached_input_tokens = Some 8000, cache_read_input_tokens = None,
           output_tokens = None, cache_creation = None\<rparr>,
          \<lparr>api_key_id = Some ''k2'', model = Some ''claude-haiku-4-5'',
           uncached_input_tokens = Some 8000, cache_read_input_tokens = None,
           output_tokens = None, cache_creation = None\<rparr>,
          \<lparr>api_key_id = Some ''k3'', model = Some ''claude-haiku-4-5'',
           uncached_input_tokens = Some 8000, cache_read_input_tokens = None,
           output_tokens = None, cache_creation = None\<rparr>]\<rparr>]
     [(''aa'', \<lparr>display_name = ''AA'', key_ids = [''k1''], email = None\<rparr>),
      (''bb'', \<lparr>display_name = ''BB'', key_ids = [''k2''], email = None\<rparr>),
      (''cc'', \<lparr>display_name = ''CC'', key_ids = [''k3''], email = None\<rparr>)]
   = Inr (Some \<lparr>cost_all = [1 / 50], pr_counts_all = [0], grand_total = 1 / 50,
                person_summaries =
                  [\<lparr>s_initials = ''aa'', s_cost = 1 / 100, s_prs = 0, s_pct = 50,
                    s_cost_per_pr = 1 / 100\<rparr>,
                   \<lparr>s_initials = ''bb'', s_cost = 1 / 100, s_prs = 0, s_pct = 50,
                    s_cost_per_pr = 1 / 100\<rparr>,
                   \<lparr>s_initials = ''cc'', s_cost = 1 / 100, s_prs = 0, s_pct = 50,
                    s_cost_per_pr = 1 / 100\<rparr>],
                total_cost_per_pr = 1 / 50\<rparr>) \<and>
   build_consumption_chart py_round2 [''2026-02-03'']
     [\<lparr>created_key = Some ''2026-02-03'', creator_email = ''ab@corp.example''\<rparr>]
     [\<lparr>starting_at = Some ''2026-02-03T00:00:00Z'',
       results =
         [\<lparr>api_key_id = Some ''k1'', model = Some ''claude-sonnet-4-x'',
           uncached_input_tokens = None, cache_read_input_tokens = None,
           output_tokens = None, cache_creation = None\<rparr>]\<rparr>]
     [(''ab'', \<lparr>display_name = ''AB'', key_ids = [''k1''], email = None\<rparr>)]
   = Inr (Some \<lparr>cost_all = [0], pr_counts_all = [1], grand_total = 0,
                person_summaries =
                  [\<lparr>s_initials = ''ab'', s_cost = 0, s_prs = 1, s_pct = 0, s_cost_per_pr = 0\<rparr>],
                total_cost_per_pr = 0\<rparr>)"
  by code_simp

text \<open>
  Claim C3, as amended. \<^verbatim>\<open>build_consumption_chart\<close> never divides by zero, whatever the
  batch: it always returns. The cost share is guarded by the grand total and is 0 when the
  grand total is not positive. Cost per pull request, for a person and overall, divides by
  the larger of 1 and the number of pull requests: without pull requests it is the cost
  itself, not 0.
\<close>

theorem ratios_guard_zero_denominator:
  "(\<exists>r. build_consumption_chart round2 dates prs usage_buckets people = Inr r) \<and>
   (build_consumption_chart round2 dates prs usage_buckets people = Inr (Some c) \<longrightarrow>
      total_cost_per_pr c = grand_total c / of_int (max 1 (int (length prs))) \<and>
      (prs = [] \<longrightarrow> total_cost_per_pr c = grand_total c) \<and>
      (\<forall>s\<in>set (person_summaries c).
          s_pct s = (if 0 < grand_total c then s_cost s / grand_total c * 100 else 0) \<and>
          s_cost_per_pr s = s_cost s / of_int (max 1 (s_prs s)) \<and>
          (s_prs s = 0 \<longrightarrow> s_cost_per_pr s = s_cost s)))"
proof -
  have A: "\<exists>r. build_consumption_chart round2 dates prs usage_buckets people = Inr r"
  proof (cases "usage_buckets = []")
    case True
    then show ?thesis by (simp add: build_consumption_chart_def)
  next
    case False
    from build_consumption_chart_eq[OF this] show ?thesis by blast
  qed
  have B: "total_cost_per_pr c = grand_total c / of_int (max 1 (int (length prs))) \<and>
      (prs = [] \<longrightarrow> total_cost_per_pr c = grand_total c) \<and>
      (\<forall>s\<in>set (person_summaries c).
          s_pct s = (if 0 < grand_total c then s_cost s / grand_total c * 100 else 0) \<and>
          s_cost_per_pr s = s_cost s / of_int (max 1 (s_prs s)) \<and>
          (s_prs s = 0 \<longrightarrow> s_cost_per_pr s = s_cost s))"
    if c: "build_consumption_chart round2 dates prs usage_buckets people = Inr (Some c)"
  proof -
    have t: "total_cost_per_pr c = grand_total c / of_int (max 1 (int (length prs)))"
      using chart_fields(1,3)[OF c] by simp
    have s: "s_pct s = (if 0 < grand_total c then s_cost s / grand_total c * 100 else 0) \<and>
          s_cost_per_pr s = s_cost s / of_int (max 1 (s_prs s)) \<and>
          (s_prs s = 0 \<longrightarrow> s_cost_per_pr s = s_cost s)"
      if "s \<in> set (person_summaries c)" for s
    proof -
      from that obtain ini where
        "s = summary_row (chart_rows round2 people usage_buckets prs dates)
               (chart_total round2 people usage_buckets dates) ini"
        unfolding chart_fields(2)[OF c] by auto
      then show ?thesis using chart_fields(1)[OF c] by simp
    qed
    from t s show ?thesis by simp
  qed
  from A B show ?thesis by blast
qed

text \<open>
  A batch whose only usage record costs nothing, with one pull request: share 0, cost per
  pull request 0.
\<close>

theorem ratios_guard_zero_denominator_witness:
  "build_consumption_chart py_round2 [''2026-02-03'']
     [\<lparr>created_key = Some ''2026-02-03'', creator_email = ''AB@example.org''\<rparr>]
     [\<lparr>starting_at = Some ''2026-02-03T00:00:00Z'',
       results =
         [\<lparr>api_key_id = Some ''k1'', model = Some ''claude-opus-4-1'',
           uncached_input_tokens = Some 0, cache_read_input_tokens = None,
           output_tokens = None, cache_creation = None\<rparr>]\<rparr>]
     [(''ab'', \<lparr>display_name = ''AB'', key_ids = [''k1''], email = None\<rparr>)]
   = Inr (Some \<lparr>cost_all = [0], pr_counts_all = [1], grand_total = 0,
                person_summaries =
                  [\<lparr>s_initials = ''ab'', s_cost = 0, s_prs = 1, s_pct = 0, s_cost_per_pr = 0\<rparr>],
                total_cost_per_pr = 0\<rparr>) \<and>
   s_pct \<lparr>s_initials = ''ab'', s_cost = 0, s_prs = 1, s_pct = 0, s_cost_per_pr = 0\<rparr>
     = (if 0 < (0::rat) then 0 / 0 * 100 else 0) \<and>
   s_cost_per_pr \<lparr>s_initials = ''ab'', s_cost = 0, s_prs = 1, s_pct = 0, s_cost_per_pr = 0\<rparr>
     = 0 / of_int (max 1 1)"
proof -
  let ?prs = "[\<lparr>created_key = Some ''2026-02-03'', creator_email = ''AB@example.org''\<rparr>]"
  let ?usage = "[\<lparr>starting_at = Some ''2026-02-03T00:00:00Z'',
       results =
         [\<lparr>api_key_id = Some ''k1'', model = Some ''claude-opus-4-1'',
           uncached_input_tokens = Some 0, cache_read_input_tokens = None,
           output_tokens = None, cache_creation = None\<rparr>]\<rparr>]"
  let ?people = "[(''ab'', \<lparr>display_name = ''AB'', key_ids = [''k1''], email = None\<rparr>)]"
  let ?s = "\<lparr>s_initials = ''ab'', s_cost = 0, s_prs = 1, s_pct = 0, s_cost_per_pr = 0\<rparr>"
  let ?c = "\<lparr>cost_all = [0], pr_counts_all = [1], grand_total = 0,
                person_summaries = [?s], total_cost_per_pr = 0\<rparr>"
  have e: "build_consumption_chart py_round2 [''2026-02-03''] ?prs ?usage ?people = Inr (Some ?c)"
    by code_simp
  have m: "?s \<in> set (person_summaries ?c)" by simp
  from ratios_guard_zero_denominator[of py_round2 "[''2026-02-03'']" ?prs ?usage ?people ?c] e
  have "\<forall>s\<in>set (person_summaries ?c).
          s_pct s = (if 0 < grand_total ?c then s_cost s / grand_total ?c * 100 else 0) \<and>
          s_cost_per_pr s = s_cost s / of_int (max 1 (s_prs s))"
    by blast
  with m have "s_pct ?s = (if 0 < grand_total ?c then s_cost ?s / grand_total ?c * 100 else 0) \<and>
          s_cost_per_pr ?s = s_cost ?s / of_int (max 1 (s_prs ?s))"
    by blast
  with e show ?thesis by simp
qed

text \<open>
  Claim C3 as stated fails where it says that 0 is reported: with 3 dollars of usage and no
  pull request, the cost per pull request is reported as 3, for the person and overall.
\<close>

theorem cost_per_pr_without_prs_is_cost:
  "build_consumption_chart py_round2 [''2026-02-03''] []
     [\<lparr>starting_at = Some ''2026-02-03T00:00:00Z'',
       results =
         [\<lparr>api_key_id = Some ''k1'', model = Some ''claude-sonnet-4-x'',
           uncached_input_tokens = Some 1000000, cache_read_input_tokens = None,
           output_tokens = None, cache_creation = None\<rparr>]\<rparr>]
     [(''ab'', \<lparr>display_name = ''AB'', key_ids = [''k1''], email = None\<rparr>)]
   = Inr (Some \<lparr>cost_all = [3], pr_counts_all = [0], grand_total = 3,
                person_summaries =
                  [\<lparr>s_initials = ''ab'', s_cost = 3, s_prs = 0, s_pct = 100, s_cost_per_pr = 3\<rparr>],
                total_cost_per_pr = 3\<rparr>)"
  by code_simp

end
